theory Spec2Isabelle
  imports Complex_Main
begin

section \<open>NumPy and Python floats\<close>

text \<open>
  The simulators of \<^verbatim>\<open>process.py\<close> compute on Python floats and on NumPy arrays of
  64-bit floats. A float is modelled as a real number, one of the two infinities, or
  NaN. The special values behave as IEEE 754 has them: a result beyond the largest
  float64 is an infinity (\<open>ovf\<close>), \<open>inf - inf\<close> and \<open>0 * inf\<close> are NaN, NaN propagates, and
  every comparison with NaN is false. Rounding of finite results, underflow and the sign
  of zero are not modelled: a finite result is the exact real. Equality of cells is
  equality of the datatype, so two NaN cells count as the same cell.
\<close>

datatype npfloat = Fin real | PInf | NInf | NaN

type_synonym ndarray = "npfloat list list"

text \<open>The largest float64, \<open>(2 - 2\<^sup>-\<^sup>5\<^sup>2) * 2\<^sup>1\<^sup>0\<^sup>2\<^sup>3\<close>.\<close>

definition float_max :: real where
  "float_max = 2 ^ 1024 - 2 ^ 971"

definition ovf :: "real \<Rightarrow> npfloat" where
  "ovf x = (if x > float_max then PInf else if x < - float_max then NInf else Fin x)"

fun fneg :: "npfloat \<Rightarrow> npfloat" where
  "fneg (Fin a) = Fin (- a)"
| "fneg PInf = NInf"
| "fneg NInf = PInf"
| "fneg NaN = NaN"

fun fadd :: "npfloat \<Rightarrow> npfloat \<Rightarrow> npfloat" where
  "fadd NaN y = NaN"
| "fadd x NaN = NaN"
| "fadd (Fin a) (Fin b) = ovf (a + b)"
| "fadd PInf NInf = NaN"
| "fadd NInf PInf = NaN"
| "fadd PInf y = PInf"
| "fadd x PInf = PInf"
| "fadd NInf y = NInf"
| "fadd x NInf = NInf"

definition fsub :: "npfloat \<Rightarrow> npfloat \<Rightarrow> npfloat" where
  "fsub x y = fadd x (fneg y)"

fun fmul :: "npfloat \<Rightarrow> npfloat \<Rightarrow> npfloat" where
  "fmul NaN y = NaN"
| "fmul x NaN = NaN"
| "fmul (Fin a) (Fin b) = ovf (a * b)"
| "fmul (Fin a) PInf = (if a = 0 then NaN else if a > 0 then PInf else NInf)"
| "fmul (Fin a) NInf = (if a = 0 then NaN else if a > 0 then NInf else PInf)"
| "fmul PInf (Fin b) = (if b = 0 then NaN else if b > 0 then PInf else NInf)"
| "fmul NInf (Fin b) = (if b = 0 then NaN else if b > 0 then NInf else PInf)"
| "fmul PInf PInf = PInf"
| "fmul PInf NInf = NInf"
| "fmul NInf PInf = NInf"
| "fmul NInf NInf = PInf"

text \<open>
  Division. The source divides by the literals \<open>2\<close> and \<open>4\<close> only; as the sign of zero
  is not modelled, a zero divisor is taken as \<open>+0\<close>.
\<close>

fun fdiv :: "npfloat \<Rightarrow> npfloat \<Rightarrow> npfloat" where
  "fdiv NaN y = NaN"
| "fdiv x NaN = NaN"
| "fdiv (Fin a) (Fin b) =
     (if b = 0 then (if a = 0 then NaN else if a > 0 then PInf else NInf) else ovf (a / b))"
| "fdiv (Fin a) y = Fin 0"
| "fdiv PInf (Fin b) = (if b < 0 then NInf else PInf)"
| "fdiv NInf (Fin b) = (if b < 0 then PInf else NInf)"
| "fdiv x y = NaN"

text \<open>\<^verbatim>\<open>a ** 2\<close> on an array.\<close>

definition fsquare :: "npfloat \<Rightarrow> npfloat" where
  "fsquare z = fmul z z"

text \<open>\<^verbatim>\<open>np.sqrt\<close>: NaN on a negative argument (HOL's \<open>sqrt\<close> is a total odd function).\<close>

fun np_sqrt :: "npfloat \<Rightarrow> npfloat" where
  "np_sqrt (Fin a) = (if a < 0 then NaN else Fin (sqrt a))"
| "np_sqrt PInf = PInf"
| "np_sqrt NInf = NaN"
| "np_sqrt NaN = NaN"

fun np_exp :: "npfloat \<Rightarrow> npfloat" where
  "np_exp (Fin a) = ovf (exp a)"
| "np_exp PInf = PInf"
| "np_exp NInf = Fin 0"
| "np_exp NaN = NaN"

text \<open>The comparison \<^verbatim>\<open>a > b\<close>: false as soon as one side is NaN.\<close>

fun fgt :: "npfloat \<Rightarrow> npfloat \<Rightarrow> bool" where
  "fgt NaN y = False"
| "fgt x NaN = False"
| "fgt (Fin a) (Fin b) = (a > b)"
| "fgt PInf PInf = False"
| "fgt PInf y = True"
| "fgt NInf y = False"
| "fgt x NInf = True"
| "fgt x PInf = False"

text \<open>The test \<^verbatim>\<open>a >= 0\<close>, which NaN fails.\<close>

fun nonneg :: "npfloat \<Rightarrow> bool" where
  "nonneg (Fin a) = (0 \<le> a)"
| "nonneg PInf = True"
| "nonneg NInf = False"
| "nonneg NaN = False"

text \<open>The test \<^verbatim>\<open>not (a < 0)\<close>: the cell is NaN or passes \<^verbatim>\<open>a >= 0\<close>.\<close>

fun not_negative :: "npfloat \<Rightarrow> bool" where
  "not_negative (Fin a) = (0 \<le> a)"
| "not_negative PInf = True"
| "not_negative NInf = False"
| "not_negative NaN = True"

text \<open>
  Python's \<^verbatim>\<open>x ** 2\<close> on a float: unlike the array operations it raises
  \<^verbatim>\<open>OverflowError\<close> where the result is out of range.
\<close>

datatype error = ValueError | ZeroDivisionError | OverflowError

definition py_pow2 :: "real \<Rightarrow> error + npfloat" where
  "py_pow2 x = (if x ^ 2 > float_max then Inl OverflowError else Inr (Fin (x ^ 2)))"

text \<open>An array has shape \<open>(rows, cols)\<close>.\<close>

definition shape :: "ndarray \<Rightarrow> nat \<Rightarrow> nat \<Rightarrow> bool" where
  "shape a rows cols = (length a = rows \<and> list_all (\<lambda>r. length r = cols) a)"

definition np_zeros :: "nat \<Rightarrow> nat \<Rightarrow> ndarray" where
  "np_zeros rows cols = replicate rows (replicate cols (Fin 0))"

text \<open>\<^verbatim>\<open>np.cumsum(a, axis=0)\<close>: the running sum down the rows.\<close>

fun cumsum_from :: "npfloat list \<Rightarrow> ndarray \<Rightarrow> ndarray" where
  "cumsum_from acc [] = []"
| "cumsum_from acc (r # rs) = (let a = map2 fadd acc r in a # cumsum_from a rs)"

definition np_cumsum :: "ndarray \<Rightarrow> ndarray" where
  "np_cumsum a = (case a of [] \<Rightarrow> [] | r # rs \<Rightarrow> r # cumsum_from r rs)"

text \<open>
  \<^verbatim>\<open>np.linspace(start, stop, num)\<close> for \<open>num > 1\<close>. Its points lie between \<open>start\<close> and
  \<open>stop\<close>, so none of them overflows.
\<close>

definition np_linspace :: "real \<Rightarrow> real \<Rightarrow> nat \<Rightarrow> real list" where
  "np_linspace start stop num =
     map (\<lambda>i. start + real i * ((stop - start) / real (num - 1))) [0..<num]"

text \<open>\<^verbatim>\<open>np.where(v > 0, v, -v)\<close> on one cell and on a whole array.\<close>

definition reflect :: "npfloat \<Rightarrow> npfloat" where
  "reflect a = (if fgt a (Fin 0) then a else fneg a)"

definition np_where_reflect :: "ndarray \<Rightarrow> ndarray" where
  "np_where_reflect v = map (map reflect) v"

section \<open>The process-wide random generator\<close>

text \<open>
  \<^verbatim>\<open>np.random\<close> is NumPy's, not this repository's: the simulators take it as a
  parameter. \<open>random_seed k\<close> is the generator state \<^verbatim>\<open>np.random.seed(k)\<close> installs, or
  \<open>None\<close> where NumPy raises \<^verbatim>\<open>ValueError\<close> (a seed outside its range);
  \<open>random_gauss\<close> draws one standard normal number and advances the state.
  \<^verbatim>\<open>np.random.randn(rows, cols)\<close> fills its array row by row from that stream.
\<close>

record 'g np_random =
  random_seed :: "int \<Rightarrow> 'g option"
  random_gauss :: "'g \<Rightarrow> real \<times> 'g"

fun draw_row :: "('g \<Rightarrow> real \<times> 'g) \<Rightarrow> nat \<Rightarrow> 'g \<Rightarrow> npfloat list \<times> 'g" where
  "draw_row gs 0 g = ([], g)"
| "draw_row gs (Suc k) g =
     (case gs g of (z, g1) \<Rightarrow>
        (case draw_row gs k g1 of (zs, g2) \<Rightarrow> (Fin z # zs, g2)))"

fun draw_rows :: "('g \<Rightarrow> real \<times> 'g) \<Rightarrow> nat \<Rightarrow> nat \<Rightarrow> 'g \<Rightarrow> ndarray \<times> 'g" where
  "draw_rows gs 0 cols g = ([], g)"
| "draw_rows gs (Suc k) cols g =
     (case draw_row gs cols g of (r, g1) \<Rightarrow>
        (case draw_rows gs k cols g1 of (rs, g2) \<Rightarrow> (r # rs, g2)))"

definition randn :: "'g np_random \<Rightarrow> nat \<Rightarrow> nat \<Rightarrow> 'g \<Rightarrow> ndarray \<times> 'g" where
  "randn rng rows cols g = draw_rows (random_gauss rng) rows cols g"

text \<open>
  \<^verbatim>\<open>if seed: np.random.seed(seed)\<close>. The guard is Python truthiness: \<^verbatim>\<open>None\<close> and
  \<open>0\<close> are both false.
\<close>

definition seed_guard :: "'g np_random \<Rightarrow> int option \<Rightarrow> 'g \<Rightarrow> error + 'g" where
  "seed_guard rng seed g =
     (case seed of
        None \<Rightarrow> Inr g
      | Some k \<Rightarrow>
          if k = 0 then Inr g
          else (case random_seed rng k of None \<Rightarrow> Inl ValueError | Some g' \<Rightarrow> Inr g'))"

text \<open>NumPy accepts the seed argument: the guard does not raise.\<close>

definition seed_accepted :: "'g np_random \<Rightarrow> int option \<Rightarrow> bool" where
  "seed_accepted rng seed =
     (case seed of
        None \<Rightarrow> True
      | Some k \<Rightarrow> k = 0 \<or> (case random_seed rng k of None \<Rightarrow> False | Some g' \<Rightarrow> True))"

text \<open>
  What the caller of a simulator receives: the exception or the returned value. The
  generator state a call leaves is process state, not part of what it returns.
\<close>

definition returned :: "error + ('a \<times> 'g) \<Rightarrow> error + 'a" where
  "returned r = (case r of Inl e \<Rightarrow> Inl e | Inr (a, g) \<Rightarrow> Inr a)"

section \<open>GeometricBrownianMotion\<close>

text \<open>The two dataclasses. Both have a field \<open>mu\<close>; it is written qualified.\<close>

record GeometricBrownianMotion =
  mu :: real
  sigma :: real

record HestonProcess =
  mu :: real
  kappa :: real
  theta :: real
  eta :: real
  rho :: real
  milstein :: bool

text \<open>\<^verbatim>\<open>signe = -1 if antithetic else 1\<close>\<close>

definition signe :: "bool \<Rightarrow> real" where
  "signe antithetic = (if antithetic then - 1 else 1)"

text \<open>
  Lines 42 and 43: the Brownian path
  \<^verbatim>\<open>W = signe * np.cumsum(np.sqrt(dt) * np.random.randn(m + 1, n), axis=0); W[0] = 0\<close>.
\<close>

definition gbm_W :: "'g np_random \<Rightarrow> real \<Rightarrow> nat \<Rightarrow> nat \<Rightarrow> bool \<Rightarrow> 'g \<Rightarrow> ndarray \<times> 'g" where
  "gbm_W rng dt n m antithetic g =
     (case randn rng (m + 1) n g of (z, g1) \<Rightarrow>
        (let W = map (map (fmul (Fin (signe antithetic))))
                   (np_cumsum (map (map (fmul (np_sqrt (Fin dt)))) z))
         in (W[0 := replicate n (Fin 0)], g1)))"

text \<open>Line 45: \<^verbatim>\<open>np.ones(n).reshape(1, -1) * np.linspace(0, T, m + 1).reshape(-1, 1)\<close>.\<close>

definition gbm_T_grid :: "real \<Rightarrow> nat \<Rightarrow> nat \<Rightarrow> ndarray" where
  "gbm_T_grid T n m =
     map (\<lambda>t. map (\<lambda>one. fmul one (Fin t)) (replicate n (Fin 1))) (np_linspace 0 T (m + 1))"

text \<open>
  Line 47, the Python float \<^verbatim>\<open>self.mu - 0.5 * self.sigma ** 2\<close>: the power may raise, the
  product and the difference may overflow to an infinity.
\<close>

definition gbm_drift :: "GeometricBrownianMotion \<Rightarrow> error + npfloat" where
  "gbm_drift p =
     (case py_pow2 (sigma p) of
        Inl e \<Rightarrow> Inl e
      | Inr sq \<Rightarrow> Inr (fsub (Fin (GeometricBrownianMotion.mu p)) (fmul (Fin 0.5) sq)))"

text \<open>Line 47, on one cell: \<^verbatim>\<open>s0 * np.exp(drift * T + sigma * W)\<close>.\<close>

definition gbm_cell :: "npfloat \<Rightarrow> real \<Rightarrow> real \<Rightarrow> npfloat \<Rightarrow> npfloat \<Rightarrow> npfloat" where
  "gbm_cell drift sig s0 t w =
     fmul (Fin s0) (np_exp (fadd (fmul drift t) (fmul (Fin sig) w)))"

text \<open>
  Lines 36 to 43 of \<^verbatim>\<open>GeometricBrownianMotion.simulate\<close>, started in generator state
  \<open>g\<close>: the seed guard, \<^verbatim>\<open>dt = T / m\<close> (which raises for \<open>m = 0\<close>) and the Brownian path.
  It returns \<open>W\<close> and the generator state it leaves.
\<close>

definition gbm_brownian ::
  "'g np_random \<Rightarrow> real \<Rightarrow> nat \<Rightarrow> nat \<Rightarrow> bool \<Rightarrow> int option \<Rightarrow> 'g \<Rightarrow> error + (ndarray \<times> 'g)" where
  "gbm_brownian rng T n m antithetic seed g =
     (case seed_guard rng seed g of
        Inl e \<Rightarrow> Inl e
      | Inr g0 \<Rightarrow>
          if m = 0 then Inl ZeroDivisionError
          else (let dt = T / real m in Inr (gbm_W rng dt n m antithetic g0)))"

text \<open>
  \<^verbatim>\<open>GeometricBrownianMotion.simulate(s0, T, n, m, v0, antithetic, seed)\<close>: lines 36 to 43
  as above, then the time grid and the closed formula (lines 45 to 49). \<open>s0\<close>, \<open>T\<close> and
  the fields are the finite floats the caller passes, \<open>n\<close> and \<open>m\<close> are natural numbers.
  \<open>v0\<close> is unused, as in the source.
\<close>

definition GeometricBrownianMotion_simulate ::
  "'g np_random \<Rightarrow> GeometricBrownianMotion \<Rightarrow> real \<Rightarrow> real \<Rightarrow> nat \<Rightarrow> nat \<Rightarrow> real option
     \<Rightarrow> bool \<Rightarrow> int option \<Rightarrow> 'g \<Rightarrow> error + (ndarray \<times> 'g)" where
  "GeometricBrownianMotion_simulate rng p s0 T n m v0 antithetic seed g =
     (case gbm_brownian rng T n m antithetic seed g of
        Inl e \<Rightarrow> Inl e
      | Inr (W, g1) \<Rightarrow>
          (let T_grid = gbm_T_grid T n m in
           case gbm_drift p of
             Inl e \<Rightarrow> Inl e
           | Inr drift \<Rightarrow>
               (let s = map2 (map2 (gbm_cell drift (sigma p) s0)) T_grid W
                in Inr (s, g1))))"

section \<open>HestonProcess\<close>

text \<open>
  Lines 81 to 85: the two noise grids. \<open>z1\<close> is drawn first; line 82 then evaluates
  \<^verbatim>\<open>self.rho ** 2\<close>, which may raise, and draws the second grid inside the expression
  that correlates it with \<open>z1\<close>; both grids are then multiplied by \<open>signe\<close>.
\<close>

definition heston_noise ::
  "'g np_random \<Rightarrow> HestonProcess \<Rightarrow> nat \<Rightarrow> nat \<Rightarrow> bool \<Rightarrow> 'g
     \<Rightarrow> error + ((ndarray \<times> ndarray) \<times> 'g)" where
  "heston_noise rng p n m antithetic g =
     (case randn rng m n g of (z1, g1) \<Rightarrow>
        (case py_pow2 (rho p) of
           Inl e \<Rightarrow> Inl e
         | Inr sq \<Rightarrow>
             (case randn rng m n g1 of (w, g2) \<Rightarrow>
                (let z2 = map2 (map2 fadd)
                            (map (map (fmul (Fin (rho p)))) z1)
                            (map (map (fmul (np_sqrt (fsub (Fin 1) sq)))) w);
                     z1' = map (map (\<lambda>z. fmul z (Fin (signe antithetic)))) z1;
                     z2' = map (map (\<lambda>z. fmul z (Fin (signe antithetic)))) z2
                 in Inr ((z1', z2'), g2)))))"

text \<open>
  Line 100, on one cell: \<^verbatim>\<open>eta ** 2 / 4 * (z1[i] ** 2 - 1) * dt\<close>, where
  \<^verbatim>\<open>self.eta ** 2\<close> is in range (\<open>HestonProcess_simulate\<close> below raises otherwise).
\<close>

definition milstein_term :: "HestonProcess \<Rightarrow> real \<Rightarrow> npfloat \<Rightarrow> npfloat" where
  "milstein_term p dt z =
     fmul (fmul (fdiv (Fin (eta p ^ 2)) (Fin 4)) (fsub (fsquare z) (Fin 1))) (Fin dt)"

text \<open>Lines 96 to 101, on one cell: the value assigned to \<^verbatim>\<open>v[i + 1]\<close>.\<close>

definition variance_next :: "HestonProcess \<Rightarrow> real \<Rightarrow> npfloat \<Rightarrow> npfloat \<Rightarrow> npfloat" where
  "variance_next p dt vi z =
     fadd
       (fadd
          (fadd vi (fmul (fmul (Fin (kappa p)) (fsub (Fin (theta p)) vi)) (Fin dt)))
          (fmul (fmul (Fin (eta p)) (np_sqrt (fmul vi (Fin dt)))) z))
       (if milstein p then milstein_term p dt z else Fin 0)"

text \<open>Line 104, on one cell: the value assigned to \<^verbatim>\<open>x[i + 1]\<close>.\<close>

definition log_price_next ::
  "HestonProcess \<Rightarrow> real \<Rightarrow> npfloat \<Rightarrow> npfloat \<Rightarrow> npfloat \<Rightarrow> npfloat" where
  "log_price_next p dt xi vi z =
     fadd
       (fadd xi (fmul (fsub (Fin (HestonProcess.mu p)) (fdiv vi (Fin 2))) (Fin dt)))
       (fmul (np_sqrt (fmul vi (Fin dt))) z)"

text \<open>
  One pass through the body of \<^verbatim>\<open>for i in range(m)\<close> (lines 96 to 106) on the three
  arrays. The reflection of line 102 rebinds \<open>v\<close> to the reflected whole array, so line
  104 reads the reflected row \<open>i\<close>. Line 106 is inside the loop.
\<close>

fun heston_step ::
  "HestonProcess \<Rightarrow> real \<Rightarrow> ndarray \<Rightarrow> ndarray \<Rightarrow> nat
     \<Rightarrow> ndarray \<times> ndarray \<times> ndarray \<Rightarrow> ndarray \<times> ndarray \<times> ndarray" where
  "heston_step p dt z1 z2 i (s, x, v) =
     (let v1 = v[i + 1 := map2 (variance_next p dt) (v ! i) (z1 ! i)];
          v2 = np_where_reflect v1;
          x1 = x[i + 1 := map2 (\<lambda>xi (vi, z). log_price_next p dt xi vi z)
                            (x ! i) (zip (v2 ! i) (z2 ! i))];
          s1 = take 1 s @ map (\<lambda>xr. map2 fmul (s ! 0) (map np_exp xr)) (drop 1 x1)
      in (s1, x1, v2))"

text \<open>Lines 87 to 92: the arrays before the loop.\<close>

definition heston_init :: "real \<Rightarrow> real \<Rightarrow> nat \<Rightarrow> nat \<Rightarrow> ndarray \<times> ndarray \<times> ndarray" where
  "heston_init s0 v0 n m =
     ((np_zeros (m + 1) n)[0 := replicate n (Fin s0)],
      np_zeros (m + 1) n,
      (np_zeros (m + 1) n)[0 := replicate n (Fin v0)])"

text \<open>The loop \<^verbatim>\<open>for i in range(m)\<close>.\<close>

definition heston_loop ::
  "HestonProcess \<Rightarrow> real \<Rightarrow> ndarray \<Rightarrow> ndarray \<Rightarrow> nat
     \<Rightarrow> ndarray \<times> ndarray \<times> ndarray \<Rightarrow> ndarray \<times> ndarray \<times> ndarray" where
  "heston_loop p dt z1 z2 m st = fold (heston_step p dt z1 z2) [0..<m] st"

text \<open>
  Line 100 evaluates the Python float \<^verbatim>\<open>self.eta ** 2\<close> in every pass when \<open>milstein\<close> is
  set. Its value does not change from pass to pass, so it raises in the first pass,
  before any array is written, or never.
\<close>

definition milstein_guard :: "HestonProcess \<Rightarrow> error + unit" where
  "milstein_guard p =
     (if milstein p
      then (case py_pow2 (eta p) of Inl e \<Rightarrow> Inl e | Inr sq \<Rightarrow> Inr ())
      else Inr ())"

text \<open>
  Neither \<^verbatim>\<open>self.rho ** 2\<close> (line 82) nor, with \<open>milstein\<close> set, \<^verbatim>\<open>self.eta ** 2\<close>
  (line 100) raises \<^verbatim>\<open>OverflowError\<close>.
\<close>

definition powers_in_range :: "HestonProcess \<Rightarrow> bool" where
  "powers_in_range p = (rho p ^ 2 \<le> float_max \<and> (milstein p \<longrightarrow> eta p ^ 2 \<le> float_max))"

text \<open>\<^verbatim>\<open>return s if not return_vol else (s, v)\<close>\<close>

datatype heston_return = Prices ndarray | PricesVol ndarray ndarray

text \<open>
  \<^verbatim>\<open>HestonProcess.simulate(s0, v0, T, n, m, return_vol, antithetic, seed)\<close>, started in
  generator state \<open>g\<close>. The loop runs at least once (\<open>m = 0\<close> has raised before), so the
  power of line 100 is tested once, ahead of the loop.
\<close>

definition HestonProcess_simulate ::
  "'g np_random \<Rightarrow> HestonProcess \<Rightarrow> real \<Rightarrow> real \<Rightarrow> real \<Rightarrow> nat \<Rightarrow> nat \<Rightarrow> bool
     \<Rightarrow> bool \<Rightarrow> int option \<Rightarrow> 'g \<Rightarrow> error + (heston_return \<times> 'g)" where
  "HestonProcess_simulate rng p s0 v0 T n m return_vol antithetic seed g =
     (case seed_guard rng seed g of
        Inl e \<Rightarrow> Inl e
      | Inr g0 \<Rightarrow>
          if m = 0 then Inl ZeroDivisionError
          else
            (let dt = T / real m in
             case heston_noise rng p n m antithetic g0 of
               Inl e \<Rightarrow> Inl e
             | Inr ((z1, z2), g2) \<Rightarrow>
                 (case milstein_guard p of
                    Inl e \<Rightarrow> Inl e
                  | Inr u \<Rightarrow>
                      (case heston_loop p dt z1 z2 m (heston_init s0 v0 n m) of (s, x, v) \<Rightarrow>
                         Inr (if \<not> return_vol then Prices s else PricesVol s v, g2)))))"

section \<open>A concrete generator\<close>

text \<open>
  A small deterministic generator on which the simulators can be run: its state is a
  counter, a draw returns the counter and increments it, and seeding accepts NumPy's
  range of seeds.
\<close>

definition counter_random :: "nat np_random" where
  "counter_random =
     \<lparr>random_seed = (\<lambda>k. if 0 \<le> k \<and> k < 2 ^ 32 then Some (nat k) else None),
      random_gauss = (\<lambda>g. (real g, Suc g))\<rparr>"

section \<open>Facts about the floats\<close>

lemma float_max_pos: "0 < float_max"
  by (simp add: float_max_def)

lemma one_le_float_max: "1 \<le> float_max"
  by (simp add: float_max_def)

lemma pow2_in_range:
  assumes "\<bar>x\<bar> \<le> 2 ^ 500"
  shows "x ^ 2 \<le> float_max"
proof -
  have "\<bar>x\<bar> ^ 2 \<le> (2 ^ 500) ^ 2" using assms by (intro power_mono) simp_all
  then have "x ^ 2 \<le> 2 ^ 1000" by simp
  also have "\<dots> \<le> float_max" by (simp add: float_max_def)
  finally show ?thesis .
qed

lemma ovf_Fin: "\<bar>x\<bar> \<le> float_max \<Longrightarrow> ovf x = Fin x"
  by (auto simp: ovf_def)

lemma ovf_0: "ovf 0 = Fin 0"
  using float_max_pos by (simp add: ovf_def)

lemma ovf_1: "ovf 1 = Fin 1"
  using one_le_float_max by (simp add: ovf_def)

lemma fneg_ovf: "fneg (ovf x) = ovf (- x)"
  using float_max_pos by (auto simp: ovf_def)

lemma ovf_cases: "ovf x = Fin x \<and> \<bar>x\<bar> \<le> float_max \<or> ovf x = PInf \<or> ovf x = NInf"
  by (auto simp: ovf_def)

lemma fneg_fmul_one: "fneg (fmul (Fin 1) c) = fmul (Fin (- 1)) c"
  by (cases c) (simp_all add: fneg_ovf)

lemma fneg_fmul_one_right: "fneg (fmul c (Fin 1)) = fmul c (Fin (- 1))"
  by (cases c) (simp_all add: fneg_ovf)

lemma fadd_ovf_zero: "fadd (ovf x) (Fin 0) = ovf x"
  by (auto simp: ovf_def)

lemma fadd_fadd_zero: "fadd (fadd a b) (Fin 0) = fadd a b"
  by (cases a; cases b) (simp_all add: fadd_ovf_zero)

lemma reflect_Fin: "reflect (Fin a) = Fin \<bar>a\<bar>"
  by (simp add: reflect_def)

lemma reflect_cases:
  "reflect c = (case c of Fin a \<Rightarrow> Fin (if a < 0 then - a else a)
                | PInf \<Rightarrow> PInf | NInf \<Rightarrow> PInf | NaN \<Rightarrow> NaN)"
  by (cases c) (auto simp: reflect_def)

lemma reflect_not_negative: "not_negative (reflect c)"
  by (cases c) (simp_all add: reflect_def)

section \<open>Shapes\<close>

lemma shape_nth: "shape a r c \<Longrightarrow> i < r \<Longrightarrow> length (a ! i) = c"
  by (auto simp: shape_def list_all_length)

lemma shape_update: "shape a r c \<Longrightarrow> length row = c \<Longrightarrow> shape (a[i := row]) r c"
  using set_update_subset_insert[of a i row] by (auto simp: shape_def list_all_iff)

lemma shape_map_map: "shape (map (map f) a) r c = shape a r c"
  by (simp add: shape_def list_all_length)

lemma shape_zeros: "shape (np_zeros r c) r c"
  by (simp add: shape_def np_zeros_def list_all_length)

lemma shape_map2: "shape a r c \<Longrightarrow> shape b r c \<Longrightarrow> shape (map2 (map2 f) a b) r c"
  by (simp add: shape_def list_all_length)

lemma draw_row_length: "draw_row gs k g = (r, g') \<Longrightarrow> length r = k"
  by (induction k arbitrary: g r g') (auto split: prod.splits)

lemma length_draw_row: "length (fst (draw_row gs k g)) = k"
  using draw_row_length[of gs k g] by (cases "draw_row gs k g") simp

lemma shape_draw_rows: "shape (fst (draw_rows gs k c g)) k c"
proof (induction k arbitrary: g)
  case 0
  show ?case by (simp add: shape_def)
next
  case (Suc k)
  obtain r g1 where r: "draw_row gs c g = (r, g1)" by (cases "draw_row gs c g")
  obtain rs g2 where rs: "draw_rows gs k c g1 = (rs, g2)" by (cases "draw_rows gs k c g1")
  have "length r = c" using length_draw_row[of gs c g] r by simp
  moreover have "shape rs k c" using Suc[of g1] rs by simp
  ultimately show ?case using r rs by (simp add: shape_def)
qed

lemma shape_randn: "shape (fst (randn rng r c g)) r c"
  by (simp add: randn_def shape_draw_rows)

lemma cumsum_from_shape:
  "length acc = c \<Longrightarrow> list_all (\<lambda>r. length r = c) rs \<Longrightarrow>
   length (cumsum_from acc rs) = length rs \<and> list_all (\<lambda>r. length r = c) (cumsum_from acc rs)"
  by (induction rs arbitrary: acc) (auto simp: Let_def)

lemma shape_cumsum: "shape a r c \<Longrightarrow> shape (np_cumsum a) r c"
  using cumsum_from_shape by (cases a) (auto simp: shape_def np_cumsum_def)

lemma shape_gbm_W: "shape (fst (gbm_W rng dt n m anti g)) (m + 1) n"
proof -
  obtain z g1 where z: "randn rng (m + 1) n g = (z, g1)" by (cases "randn rng (m + 1) n g")
  have "shape z (m + 1) n" using shape_randn[of rng "m + 1" n g] z by simp
  then have "shape (map (map (fmul (Fin (signe anti)))) (np_cumsum (map (map (fmul (np_sqrt (Fin dt)))) z))) (m + 1) n"
    by (simp add: shape_map_map shape_cumsum)
  then show ?thesis using z by (simp add: gbm_W_def Let_def shape_update)
qed

lemma shape_gbm_T_grid: "shape (gbm_T_grid T n m) (m + 1) n"
  by (auto simp: gbm_T_grid_def np_linspace_def shape_def list_all_iff)

section \<open>GeometricBrownianMotion: the first row\<close>

lemma map2_replicate: "map2 f (replicate k a) (replicate k b) = replicate k (f a b)"
  by (simp add: zip_replicate)

lemma gbm_W_row0: "fst (gbm_W rng dt n m anti g) ! 0 = replicate n (Fin 0)"
proof -
  obtain z g2 where z: "randn rng (m + 1) n g = (z, g2)" by (cases "randn rng (m + 1) n g")
  have "shape z (m + 1) n" using shape_randn[of rng "m + 1" n g] z by simp
  then have "shape (map (map (fmul (Fin (signe anti)))) (np_cumsum (map (map (fmul (np_sqrt (Fin dt)))) z))) (m + 1) n"
    by (simp add: shape_map_map shape_cumsum)
  then have "0 < length (map (map (fmul (Fin (signe anti)))) (np_cumsum (map (map (fmul (np_sqrt (Fin dt)))) z)))"
    by (simp add: shape_def)
  then show ?thesis using z by (simp add: gbm_W_def Let_def del: length_map)
qed

lemma gbm_T_grid_row0: "gbm_T_grid T n m ! 0 = replicate n (Fin 0)"
  by (simp add: gbm_T_grid_def np_linspace_def upt_conv_Cons ovf_0 del: upt_Suc)

lemma gbm_cell_origin:
  "\<bar>s0\<bar> \<le> float_max \<Longrightarrow> gbm_cell (Fin d) sig s0 (Fin 0) (Fin 0) = Fin s0"
  by (simp add: gbm_cell_def ovf_0 ovf_1 ovf_Fin)

lemma gbm_drift_finite:
  assumes "sigma p ^ 2 \<le> float_max"
    and "\<bar>GeometricBrownianMotion.mu p - 0.5 * sigma p ^ 2\<bar> \<le> float_max"
  shows "gbm_drift p = Inr (Fin (GeometricBrownianMotion.mu p - 0.5 * sigma p ^ 2))"
proof -
  have "0 \<le> sigma p ^ 2" by simp
  then have "\<bar>0.5 * sigma p ^ 2\<bar> \<le> float_max" using assms(1) float_max_pos by linarith
  then have "fmul (Fin 0.5) (Fin (sigma p ^ 2)) = Fin (0.5 * sigma p ^ 2)"
    by (simp add: ovf_Fin)
  then show ?thesis using assms by (simp add: gbm_drift_def py_pow2_def fsub_def ovf_Fin)
qed

lemma gbm_drift_returns:
  "sigma p ^ 2 \<le> float_max \<Longrightarrow> \<exists>d. gbm_drift p = Inr d"
  by (simp add: gbm_drift_def py_pow2_def)

lemma gbm_drift_raises:
  "float_max < sigma p ^ 2 \<Longrightarrow> gbm_drift p = Inl OverflowError"
  by (simp add: gbm_drift_def py_pow2_def)

lemma seed_guard_accepted: "seed_accepted rng seed \<Longrightarrow> \<exists>g0. seed_guard rng seed g = Inr g0"
  by (auto simp: seed_accepted_def seed_guard_def split: option.splits)

lemma gbm_brownian_returns:
  assumes "1 \<le> m" "seed_guard rng seed g = Inr g0"
  shows "gbm_brownian rng T n m anti seed g = Inr (gbm_W rng (T / real m) n m anti g0)"
  using assms by (simp add: gbm_brownian_def)

lemma gbm_simulate_returns:
  assumes "1 \<le> m" "seed_guard rng seed g = Inr g0" "gbm_drift p = Inr d"
  shows "GeometricBrownianMotion_simulate rng p s0 T n m v0 anti seed g =
     Inr (map2 (map2 (gbm_cell d (sigma p) s0)) (gbm_T_grid T n m)
            (fst (gbm_W rng (T / real m) n m anti g0)),
          snd (gbm_W rng (T / real m) n m anti g0))"
  using assms by (simp add: GeometricBrownianMotion_simulate_def gbm_brownian_def split: prod.splits)

lemma gbm_simulate_raises:
  assumes "1 \<le> m" "seed_accepted rng seed" "float_max < sigma p ^ 2"
  shows "GeometricBrownianMotion_simulate rng p s0 T n m v0 anti seed g = Inl OverflowError"
proof -
  obtain g0 where g0: "seed_guard rng seed g = Inr g0"
    using seed_guard_accepted[OF assms(2)] by blast
  show ?thesis
    using assms(1) g0 gbm_drift_raises[OF assms(3)]
    by (simp add: GeometricBrownianMotion_simulate_def gbm_brownian_def split: prod.splits)
qed

lemmas run_simps =
  HestonProcess_simulate_def GeometricBrownianMotion_simulate_def gbm_brownian_def
  seed_guard_def heston_noise_def randn_def counter_random_def heston_loop_def heston_init_def
  np_zeros_def np_where_reflect_def reflect_def variance_next_def milstein_term_def
  log_price_next_def signe_def gbm_W_def np_cumsum_def gbm_T_grid_def np_linspace_def
  gbm_cell_def gbm_drift_def py_pow2_def milstein_guard_def fsub_def fsquare_def ovf_def
  float_max_def returned_def Let_def numeral_2_eq_2 numeral_3_eq_3

text \<open>
  Claim C3 says that row 0 of the matrix \<^verbatim>\<open>GeometricBrownianMotion.simulate\<close> returns is
  \<open>s0\<close> for any \<open>mu\<close> and \<open>sigma\<close>. It fails where the Python float
  \<^verbatim>\<open>self.mu - 0.5 * self.sigma ** 2\<close> of line 47 overflows: with \<open>mu = -1.7e308\<close> and
  \<open>sigma = 1.3e154\<close> it is \<open>-inf\<close>, its product with the time \<open>0\<close> of row 0 is NaN, and
  row 0 of the returned matrix is NaN.
\<close>

theorem gbm_row0_counterexample:
  "GeometricBrownianMotion_simulate counter_random
     \<lparr>GeometricBrownianMotion.mu = - 17 * 10 ^ 307, sigma = 13 * 10 ^ 153\<rparr>
     100 1 1 1 None False None 0
   = Inr ([[NaN], [Fin 0]], 2)
   \<and> [[NaN], [Fin 0]] ! 0 \<noteq> replicate 1 (Fin 100)"
  by (simp add: run_simps)

text \<open>
  Claim C3, amended. For every call of \<^verbatim>\<open>GeometricBrownianMotion.simulate\<close> with \<open>m \<ge> 1\<close>
  (and a seed NumPy accepts) in which \<^verbatim>\<open>self.sigma ** 2\<close> does not raise and
  \<^verbatim>\<open>self.mu - 0.5 * self.sigma ** 2\<close> is a finite float, the call returns a matrix, and
  row 0 of that matrix is \<open>s0\<close> in each of its \<open>n\<close> columns, whatever the float \<open>s0\<close>,
  \<open>T\<close>, the antithetic flag, the seed and the generator state are.
\<close>

theorem gbm_row0_is_s0:
  assumes "1 \<le> m" and "seed_accepted rng seed"
    and "sigma p ^ 2 \<le> float_max"
    and "\<bar>GeometricBrownianMotion.mu p - 0.5 * sigma p ^ 2\<bar> \<le> float_max"
    and "\<bar>s0\<bar> \<le> float_max"
  shows "\<exists>s g'. GeometricBrownianMotion_simulate rng p s0 T n m v0 antithetic seed g = Inr (s, g')
           \<and> s ! 0 = replicate n (Fin s0)"
proof -
  obtain g0 where g0: "seed_guard rng seed g = Inr g0"
    using seed_guard_accepted[OF assms(2)] by blast
  let ?d = "GeometricBrownianMotion.mu p - 0.5 * sigma p ^ 2"
  note d = gbm_drift_finite[OF assms(3,4)]
  let ?W = "fst (gbm_W rng (T / real m) n m antithetic g0)"
  let ?s = "map2 (map2 (gbm_cell (Fin ?d) (sigma p) s0)) (gbm_T_grid T n m) ?W"
  have lenT: "0 < length (gbm_T_grid T n m)" using shape_gbm_T_grid[of T n m] by (simp add: shape_def)
  have lenW: "0 < length ?W" using shape_gbm_W[of rng "T / real m" n m antithetic g0] by (simp add: shape_def)
  have "?s ! 0 = map2 (gbm_cell (Fin ?d) (sigma p) s0) (gbm_T_grid T n m ! 0) (?W ! 0)"
    using lenT lenW by simp
  also have "\<dots> = replicate n (Fin s0)"
    by (simp add: gbm_T_grid_row0 gbm_W_row0 map2_replicate gbm_cell_origin[OF assms(5)])
  finally have "?s ! 0 = replicate n (Fin s0)" .
  then show ?thesis using gbm_simulate_returns[OF assms(1) g0 d] by simp
qed

theorem gbm_row0_is_s0_witness:
  "1 \<le> (3::nat) \<and> seed_accepted counter_random (Some 42)
   \<and> sigma \<lparr>GeometricBrownianMotion.mu = 1 / 20, sigma = 1 / 5\<rparr> ^ 2 \<le> float_max
   \<and> \<bar>GeometricBrownianMotion.mu \<lparr>GeometricBrownianMotion.mu = 1 / 20, sigma = 1 / 5\<rparr>
        - 0.5 * sigma \<lparr>GeometricBrownianMotion.mu = 1 / 20, sigma = 1 / 5\<rparr> ^ 2\<bar> \<le> float_max
   \<and> \<bar>100\<bar> \<le> float_max
   \<and> (\<exists>s g'. GeometricBrownianMotion_simulate counter_random
          \<lparr>GeometricBrownianMotion.mu = 1 / 20, sigma = 1 / 5\<rparr> 100 1 2 3 None True (Some 42) 7
          = Inr (s, g') \<and> s ! 0 = replicate 2 (Fin 100))"
proof -
  have m: "1 \<le> (3::nat)" by simp
  have a: "seed_accepted counter_random (Some 42)"
    by (simp add: seed_accepted_def counter_random_def)
  have s: "sigma \<lparr>GeometricBrownianMotion.mu = 1 / 20, sigma = 1 / 5\<rparr> ^ 2 \<le> float_max"
    by (rule pow2_in_range) simp
  have d: "\<bar>GeometricBrownianMotion.mu \<lparr>GeometricBrownianMotion.mu = 1 / 20, sigma = 1 / 5\<rparr>
        - 0.5 * sigma \<lparr>GeometricBrownianMotion.mu = 1 / 20, sigma = 1 / 5\<rparr> ^ 2\<bar> \<le> float_max"
    using one_le_float_max by (simp add: power2_eq_square)
  have z: "\<bar>100\<bar> \<le> float_max" by (simp add: float_max_def)
  show ?thesis by (intro conjI m a s d z gbm_row0_is_s0[OF m a s d z])
qed

text \<open>
  Where \<^verbatim>\<open>self.sigma ** 2\<close> is out of range the call raises (lemma \<open>gbm_simulate_raises\<close>),
  for instance at \<open>sigma = 2\<^sup>5\<^sup>1\<^sup>2\<close>.
\<close>

lemma gbm_overflow_error_example:
  "GeometricBrownianMotion_simulate counter_random
     \<lparr>GeometricBrownianMotion.mu = 0, sigma = 2 ^ 512\<rparr> 100 1 1 1 None False None 0
   = Inl OverflowError"
  by (simp add: run_simps)

section \<open>HestonProcess: the loop and its shapes\<close>

lemma fold_upt_invariant:
  assumes "P 0 st" and "\<And>i st. i < k \<Longrightarrow> P i st \<Longrightarrow> P (Suc i) (f i st)"
  shows "P k (fold f [0..<k] st)"
proof -
  have "j \<le> k \<Longrightarrow> P j (fold f [0..<j] st)" for j
  proof (induction j)
    case 0
    show ?case using assms(1) by simp
  next
    case (Suc j)
    then show ?case using assms(2)[of j "fold f [0..<j] st"] by simp
  qed
  then show ?thesis by simp
qed

lemma heston_noise_returns:
  assumes "rho p ^ 2 \<le> float_max"
  shows "\<exists>z1 z2 g2. heston_noise rng p n m anti g = Inr ((z1, z2), g2)"
  using assms by (simp add: heston_noise_def py_pow2_def Let_def split: prod.splits)

lemma heston_noise_raises:
  assumes "float_max < rho p ^ 2"
  shows "heston_noise rng p n m anti g = Inl OverflowError"
  using assms by (simp add: heston_noise_def py_pow2_def split: prod.splits)

lemma heston_noise_shape:
  assumes "heston_noise rng p n m anti g = Inr ((z1, z2), g')"
  shows "shape z1 m n" and "shape z2 m n"
proof -
  obtain a g1 where a: "randn rng m n g = (a, g1)" by (cases "randn rng m n g")
  obtain w g2 where w: "randn rng m n g1 = (w, g2)" by (cases "randn rng m n g1")
  have sa: "shape a m n" using shape_randn[of rng m n g] a by simp
  have sw: "shape w m n" using shape_randn[of rng m n g1] w by simp
  obtain sq where sq: "py_pow2 (rho p) = Inr sq"
    using assms a by (cases "py_pow2 (rho p)") (simp_all add: heston_noise_def)
  have z1: "z1 = map (map (\<lambda>z. fmul z (Fin (signe anti)))) a"
    using assms a w sq by (simp add: heston_noise_def Let_def)
  have z2: "z2 = map (map (\<lambda>z. fmul z (Fin (signe anti))))
                  (map2 (map2 fadd) (map (map (fmul (Fin (rho p)))) a)
                     (map (map (fmul (np_sqrt (fsub (Fin 1) sq)))) w))"
    using assms a w sq by (simp add: heston_noise_def Let_def)
  show "shape z1 m n" using sa by (simp add: z1 shape_map_map)
  have "shape (map2 (map2 fadd) (map (map (fmul (Fin (rho p)))) a)
                     (map (map (fmul (np_sqrt (fsub (Fin 1) sq)))) w)) m n"
    by (rule shape_map2) (simp_all only: shape_map_map sa sw)
  then show "shape z2 m n" unfolding z2 by (simp only: shape_map_map)
qed

lemma heston_init_shape:
  "heston_init s0 v0 n m = (s, x, v) \<Longrightarrow> shape s (m + 1) n \<and> shape x (m + 1) n \<and> shape v (m + 1) n"
  by (auto simp: heston_init_def shape_zeros shape_update)

lemma heston_step_v:
  "snd (snd (heston_step p dt z1 z2 i (s, x, v))) =
     np_where_reflect (v[i + 1 := map2 (variance_next p dt) (v ! i) (z1 ! i)])"
  by (simp add: Let_def)

lemma heston_step_x:
  "fst (snd (heston_step p dt z1 z2 i (s, x, v))) =
     x[i + 1 := map2 (\<lambda>xi (vi, z). log_price_next p dt xi vi z) (x ! i)
        (zip (snd (snd (heston_step p dt z1 z2 i (s, x, v))) ! i) (z2 ! i))]"
  by (simp add: Let_def)

lemma heston_step_s:
  "fst (heston_step p dt z1 z2 i (s, x, v)) =
     take 1 s @ map (\<lambda>xr. map2 fmul (s ! 0) (map np_exp xr))
       (drop 1 (fst (snd (heston_step p dt z1 z2 i (s, x, v)))))"
  by (simp add: Let_def)

lemma shape_s_update:
  assumes "shape s (m + 1) n" "shape x (m + 1) n"
  shows "shape (take 1 s @ map (\<lambda>xr. map2 fmul (s ! 0) (map np_exp xr)) (drop 1 x)) (m + 1) n"
proof -
  have "length (s ! 0) = n" using shape_nth[OF assms(1), of 0] by simp
  then show ?thesis using assms
    by (auto simp: shape_def list_all_iff dest: in_set_takeD in_set_dropD)
qed

lemma heston_step_shape:
  assumes "shape s (m + 1) n" "shape x (m + 1) n" "shape v (m + 1) n"
    and "shape z1 m n" "shape z2 m n" "i < m"
  shows "shape (fst (heston_step p dt z1 z2 i (s, x, v))) (m + 1) n"
    and "shape (fst (snd (heston_step p dt z1 z2 i (s, x, v)))) (m + 1) n"
    and "shape (snd (snd (heston_step p dt z1 z2 i (s, x, v)))) (m + 1) n"
proof -
  have vi: "length (v ! i) = n" using shape_nth[OF assms(3), of i] assms(6) by simp
  have xi: "length (x ! i) = n" using shape_nth[OF assms(2), of i] assms(6) by simp
  have z1i: "length (z1 ! i) = n" using shape_nth[OF assms(4) assms(6)] .
  have z2i: "length (z2 ! i) = n" using shape_nth[OF assms(5) assms(6)] .
  show v': "shape (snd (snd (heston_step p dt z1 z2 i (s, x, v)))) (m + 1) n"
    unfolding heston_step_v np_where_reflect_def shape_map_map
    by (rule shape_update[OF assms(3)]) (simp add: vi z1i)
  have v'i: "length (snd (snd (heston_step p dt z1 z2 i (s, x, v))) ! i) = n"
    using shape_nth[OF v', of i] assms(6) by simp
  show x': "shape (fst (snd (heston_step p dt z1 z2 i (s, x, v)))) (m + 1) n"
    by (subst heston_step_x, rule shape_update[OF assms(2)])
      (simp add: xi v'i z2i del: heston_step.simps)
  show "shape (fst (heston_step p dt z1 z2 i (s, x, v))) (m + 1) n"
    by (subst heston_step_s, rule shape_s_update[OF assms(1) x'])
qed

lemma heston_loop_shape:
  assumes "shape z1 m n" "shape z2 m n"
  shows "shape (fst (heston_loop p dt z1 z2 m (heston_init s0 v0 n m))) (m + 1) n
       \<and> shape (fst (snd (heston_loop p dt z1 z2 m (heston_init s0 v0 n m)))) (m + 1) n
       \<and> shape (snd (snd (heston_loop p dt z1 z2 m (heston_init s0 v0 n m)))) (m + 1) n"
  unfolding heston_loop_def
proof (rule fold_upt_invariant[where P = "\<lambda>i st. shape (fst st) (m + 1) n
       \<and> shape (fst (snd st)) (m + 1) n \<and> shape (snd (snd st)) (m + 1) n"])
  show "shape (fst (heston_init s0 v0 n m)) (m + 1) n \<and>
    shape (fst (snd (heston_init s0 v0 n m))) (m + 1) n \<and>
    shape (snd (snd (heston_init s0 v0 n m))) (m + 1) n"
    using heston_init_shape[of s0 v0 n m] by (cases "heston_init s0 v0 n m") simp
next
  fix i st
  assume i: "i < m" and inv: "shape (fst st) (m + 1) n \<and>
       shape (fst (snd st)) (m + 1) n \<and> shape (snd (snd st)) (m + 1) n"
  obtain s x v where st: "st = (s, x, v)" by (cases st)
  show "shape (fst (heston_step p dt z1 z2 i st)) (m + 1) n \<and>
       shape (fst (snd (heston_step p dt z1 z2 i st))) (m + 1) n \<and>
       shape (snd (snd (heston_step p dt z1 z2 i st))) (m + 1) n"
    using heston_step_shape[of s m n x v z1 z2 i p dt] inv assms i unfolding st by simp
qed

section \<open>HestonProcess: when the call returns, and invariants of the loop\<close>

lemma milstein_guard_returns:
  "milstein p \<longrightarrow> eta p ^ 2 \<le> float_max \<Longrightarrow> milstein_guard p = Inr ()"
  by (auto simp: milstein_guard_def py_pow2_def)

lemma milstein_guard_raises:
  "milstein p \<Longrightarrow> float_max < eta p ^ 2 \<Longrightarrow> milstein_guard p = Inl OverflowError"
  by (simp add: milstein_guard_def py_pow2_def)

lemma heston_simulate_returns:
  assumes "1 \<le> m" "seed_guard rng seed g = Inr g0"
    and "heston_noise rng p n m anti g0 = Inr ((z1, z2), g2)"
    and "milstein p \<longrightarrow> eta p ^ 2 \<le> float_max"
  shows "HestonProcess_simulate rng p s0 v0 T n m return_vol anti seed g =
     Inr (if \<not> return_vol
          then Prices (fst (heston_loop p (T / real m) z1 z2 m (heston_init s0 v0 n m)))
          else PricesVol
                 (fst (heston_loop p (T / real m) z1 z2 m (heston_init s0 v0 n m)))
                 (snd (snd (heston_loop p (T / real m) z1 z2 m (heston_init s0 v0 n m)))),
          g2)"
  using assms(1-3) milstein_guard_returns[OF assms(4)]
  by (simp add: HestonProcess_simulate_def split: prod.splits)

lemma heston_simulate_raises:
  assumes "1 \<le> m" "seed_accepted rng seed"
    and "float_max < rho p ^ 2 \<or> milstein p \<and> float_max < eta p ^ 2"
  shows "HestonProcess_simulate rng p s0 v0 T n m return_vol anti seed g = Inl OverflowError"
proof -
  obtain g0 where g0: "seed_guard rng seed g = Inr g0"
    using seed_guard_accepted[OF assms(2)] by blast
  show ?thesis
  proof (cases "float_max < rho p ^ 2")
    case True
    then show ?thesis
      using assms(1) g0 heston_noise_raises[of p rng n m anti g0]
      by (simp add: HestonProcess_simulate_def)
  next
    case False
    then have e: "milstein p" "float_max < eta p ^ 2" using assms(3) by auto
    obtain z1 z2 g2 where nz: "heston_noise rng p n m anti g0 = Inr ((z1, z2), g2)"
      using heston_noise_returns[of p rng n m anti g0] False by auto
    show ?thesis
      using assms(1) g0 nz milstein_guard_raises[OF e]
      by (simp add: HestonProcess_simulate_def)
  qed
qed

lemma heston_loop_Suc:
  "heston_loop p dt z1 z2 (Suc k) st = heston_step p dt z1 z2 k (heston_loop p dt z1 z2 k st)"
  by (simp add: heston_loop_def)

lemma heston_step_not_negative:
  "list_all (list_all not_negative) (snd (snd (heston_step p dt z1 z2 i (s, x, v))))"
  unfolding heston_step_v np_where_reflect_def
  by (simp add: list_all_iff reflect_not_negative)

lemma heston_loop_not_negative:
  assumes "1 \<le> m"
  shows "list_all (list_all not_negative) (snd (snd (heston_loop p dt z1 z2 m st)))"
proof -
  obtain k where k: "m = Suc k" using assms by (cases m) simp_all
  obtain s x v where st: "heston_loop p dt z1 z2 k st = (s, x, v)"
    by (cases "heston_loop p dt z1 z2 k st")
  show ?thesis
    using heston_step_not_negative[of p dt z1 z2 k s x v]
    by (simp add: k heston_loop_Suc st del: heston_step.simps)
qed

lemma heston_step_s_row0:
  "0 < length s \<Longrightarrow> fst (heston_step p dt z1 z2 i (s, x, v)) ! 0 = s ! 0"
  by (cases s) (simp_all add: Let_def)

lemma heston_step_v_row0:
  "0 < length v \<Longrightarrow> snd (snd (heston_step p dt z1 z2 i (s, x, v))) ! 0 = map reflect (v ! 0)"
  unfolding heston_step_v np_where_reflect_def by simp

lemma heston_init_s_row0: "fst (heston_init s0 v0 n m) ! 0 = replicate n (Fin s0)"
  by (simp add: heston_init_def np_zeros_def)

lemma heston_init_v_row0: "snd (snd (heston_init s0 v0 n m)) ! 0 = replicate n (Fin v0)"
  by (simp add: heston_init_def np_zeros_def)

lemma heston_loop_row0:
  assumes "shape z1 m n" "shape z2 m n"
  shows "fst (heston_loop p dt z1 z2 m (heston_init s0 v0 n m)) ! 0 = replicate n (Fin s0)
       \<and> snd (snd (heston_loop p dt z1 z2 m (heston_init s0 v0 n m))) ! 0
           = replicate n (Fin (if m = 0 then v0 else \<bar>v0\<bar>))"
proof -
  let ?P = "\<lambda>i st. (shape (fst st) (m + 1) n
       \<and> shape (fst (snd st)) (m + 1) n \<and> shape (snd (snd st)) (m + 1) n)
       \<and> fst st ! 0 = replicate n (Fin s0)
       \<and> snd (snd st) ! 0 = replicate n (Fin (if i = 0 then v0 else \<bar>v0\<bar>))"
  have "?P m (fold (heston_step p dt z1 z2) [0..<m] (heston_init s0 v0 n m))"
  proof (rule fold_upt_invariant[where P = ?P])
    show "?P 0 (heston_init s0 v0 n m)"
      using heston_init_shape[of s0 v0 n m] heston_init_s_row0[of s0 v0 n m]
        heston_init_v_row0[of s0 v0 n m]
      by (cases "heston_init s0 v0 n m") simp
  next
    fix i st
    assume i: "i < m" and inv: "?P i st"
    obtain s x v where st: "st = (s, x, v)" by (cases st)
    have sh: "shape s (m + 1) n" "shape x (m + 1) n" "shape v (m + 1) n"
      using inv by (simp_all add: st)
    have len: "0 < length s" "0 < length v" using sh by (simp_all add: shape_def)
    have s0: "fst (heston_step p dt z1 z2 i st) ! 0 = replicate n (Fin s0)"
      using heston_step_s_row0[OF len(1)] inv by (simp add: st del: heston_step.simps)
    have "map reflect (v ! 0) = replicate n (Fin \<bar>v0\<bar>)"
      using inv by (simp add: st reflect_Fin)
    then have v0: "snd (snd (heston_step p dt z1 z2 i st)) ! 0 = replicate n (Fin \<bar>v0\<bar>)"
      using heston_step_v_row0[OF len(2)] by (simp add: st del: heston_step.simps)
    show "?P (Suc i) (heston_step p dt z1 z2 i st)"
      using heston_step_shape[OF sh assms i] s0 v0 by (simp add: st del: heston_step.simps)
  qed
  then show ?thesis by (simp add: heston_loop_def)
qed

section \<open>Shapes of the returned matrices\<close>

lemma powers_in_range_example:
  "powers_in_range
     \<lparr>mu = 3 / 100, kappa = 2, theta = 1 / 25, eta = 3 / 10, rho = - 7 / 10, milstein = True\<rparr>"
  by (simp add: powers_in_range_def pow2_in_range)

text \<open>
  Claim C2. For both simulators and every \<open>m \<ge> 1\<close> the call returns, and each returned
  matrix has exactly \<open>m + 1\<close> rows and \<open>n\<close> columns: the price matrix of
  \<^verbatim>\<open>GeometricBrownianMotion.simulate\<close>, the price matrix of \<^verbatim>\<open>HestonProcess.simulate\<close>,
  and with \<^verbatim>\<open>return_vol\<close> also its variance matrix. That the call returns supposes a
  seed NumPy accepts and powers \<^verbatim>\<open>sigma ** 2\<close>, \<^verbatim>\<open>rho ** 2\<close>, \<^verbatim>\<open>eta ** 2\<close> in range: the
  call raises otherwise (lemmas \<open>gbm_simulate_raises\<close> and \<open>heston_simulate_raises\<close>) and
  returns no matrix. The statement does not need \<open>n \<ge> 1\<close>.
\<close>

theorem simulate_shapes:
  assumes "1 \<le> m" and "seed_accepted rng seed"
    and "sigma q ^ 2 \<le> float_max" and "powers_in_range p"
  shows "(\<exists>s g'. GeometricBrownianMotion_simulate rng q s0 T n m w0 antithetic seed g = Inr (s, g')
            \<and> shape s (m + 1) n)
       \<and> (\<exists>s g'. HestonProcess_simulate rng p s0 v0 T n m False antithetic seed g
                   = Inr (Prices s, g')
            \<and> shape s (m + 1) n)
       \<and> (\<exists>s v g'. HestonProcess_simulate rng p s0 v0 T n m True antithetic seed g
                   = Inr (PricesVol s v, g')
            \<and> shape s (m + 1) n \<and> shape v (m + 1) n)"
proof -
  obtain g0 where g0: "seed_guard rng seed g = Inr g0"
    using seed_guard_accepted[OF assms(2)] by blast
  have r: "rho p ^ 2 \<le> float_max" and e: "milstein p \<longrightarrow> eta p ^ 2 \<le> float_max"
    using assms(4) by (simp_all add: powers_in_range_def)
  obtain z1 z2 g2 where nz: "heston_noise rng p n m antithetic g0 = Inr ((z1, z2), g2)"
    using heston_noise_returns[OF r, where rng = rng and n = n and m = m and anti = antithetic and g = g0]
    by blast
  note z = heston_noise_shape[OF nz]
  obtain d where d: "gbm_drift q = Inr d" using gbm_drift_returns[OF assms(3)] by blast
  have gbm: "shape (map2 (map2 (gbm_cell d (sigma q) s0)) (gbm_T_grid T n m)
               (fst (gbm_W rng (T / real m) n m antithetic g0))) (m + 1) n"
    by (rule shape_map2[OF shape_gbm_T_grid shape_gbm_W])
  have 1: "\<exists>s g'. GeometricBrownianMotion_simulate rng q s0 T n m w0 antithetic seed g = Inr (s, g')
            \<and> shape s (m + 1) n"
    using gbm_simulate_returns[OF assms(1) g0 d, of s0 T n w0 antithetic] gbm by simp
  have 2: "\<exists>s g'. HestonProcess_simulate rng p s0 v0 T n m False antithetic seed g
                   = Inr (Prices s, g') \<and> shape s (m + 1) n"
    using heston_simulate_returns[OF assms(1) g0 nz e, of s0 v0 T False]
      heston_loop_shape[OF z, of p "T / real m" s0 v0]
    by simp
  have 3: "\<exists>s v g'. HestonProcess_simulate rng p s0 v0 T n m True antithetic seed g
                   = Inr (PricesVol s v, g') \<and> shape s (m + 1) n \<and> shape v (m + 1) n"
    using heston_simulate_returns[OF assms(1) g0 nz e, of s0 v0 T True]
      heston_loop_shape[OF z, of p "T / real m" s0 v0]
    by simp
  show ?thesis using 1 2 3 by blast
qed

theorem simulate_shapes_witness:
  "1 \<le> (5::nat) \<and> seed_accepted counter_random (Some 7)
   \<and> sigma \<lparr>GeometricBrownianMotion.mu = 1 / 20, sigma = 1 / 5\<rparr> ^ 2 \<le> float_max
   \<and> powers_in_range
       \<lparr>mu = 3 / 100, kappa = 2, theta = 1 / 25, eta = 3 / 10, rho = - 7 / 10, milstein = True\<rparr>
   \<and> (\<exists>s g'. GeometricBrownianMotion_simulate counter_random
          \<lparr>GeometricBrownianMotion.mu = 1 / 20, sigma = 1 / 5\<rparr> 100 1 3 5 None False (Some 7) 0
          = Inr (s, g') \<and> shape s (5 + 1) 3)
   \<and> (\<exists>s g'. HestonProcess_simulate counter_random
          \<lparr>mu = 3 / 100, kappa = 2, theta = 1 / 25, eta = 3 / 10, rho = - 7 / 10, milstein = True\<rparr>
          100 (1 / 25) 1 3 5 False False (Some 7) 0 = Inr (Prices s, g')
        \<and> shape s (5 + 1) 3)
   \<and> (\<exists>s v g'. HestonProcess_simulate counter_random
          \<lparr>mu = 3 / 100, kappa = 2, theta = 1 / 25, eta = 3 / 10, rho = - 7 / 10, milstein = True\<rparr>
          100 (1 / 25) 1 3 5 True False (Some 7) 0 = Inr (PricesVol s v, g')
        \<and> shape s (5 + 1) 3 \<and> shape v (5 + 1) 3)"
proof -
  have m: "1 \<le> (5::nat)" by simp
  have a: "seed_accepted counter_random (Some 7)"
    by (simp add: seed_accepted_def counter_random_def)
  have s: "sigma \<lparr>GeometricBrownianMotion.mu = 1 / 20, sigma = 1 / 5\<rparr> ^ 2 \<le> float_max"
    by (rule pow2_in_range) simp
  note p = powers_in_range_example
  show ?thesis by (intro conjI m a s p simulate_shapes[OF m a s p, THEN conjunct1]
        simulate_shapes[OF m a s p, THEN conjunct2, THEN conjunct1]
        simulate_shapes[OF m a s p, THEN conjunct2, THEN conjunct2])
qed

section \<open>HestonProcess: the variance grid is never negative\<close>

text \<open>
  Claim C1 says that every entry of the returned variance grid is non-negative for any
  parameter combination. It fails for a negative \<open>v0\<close>: with \<open>v0 = -1\<close>, \<open>T = 1\<close>,
  \<open>n = m = 1\<close> line 99 takes the square root of \<open>v[0] * dt = -1\<close>, so \<open>v[1]\<close> is NaN, and
  the reflection of line 102 leaves NaN in place. The returned variance grid is
  \<open>[[1], [NaN]]\<close>, and NaN is not non-negative.
\<close>

theorem heston_variance_nonneg_counterexample:
  "HestonProcess_simulate counter_random
     \<lparr>mu = - 1 / 2, kappa = 2, theta = 1, eta = 1, rho = 0, milstein = True\<rparr>
     100 (- 1) 1 1 1 True False None 0
   = Inr (PricesVol [[Fin 100], [Fin 100]] [[Fin 1], [NaN]], 2)
   \<and> \<not> list_all (list_all nonneg) [[Fin 1], [NaN]]"
  by (simp add: run_simps)

text \<open>
  NaN also arises from parameters that are all non-negative, by overflow: with
  \<open>kappa = theta = 2\<^sup>5\<^sup>1\<^sup>2\<close>, \<open>eta = 0\<close>, \<open>v0 = 0\<close>, \<open>T = 2\<close>, \<open>m = 2\<close> the first pass gives
  \<open>v[1] = inf\<close> and the second \<open>v[2] = inf - inf\<close>.
\<close>

lemma heston_variance_overflow:
  "HestonProcess_simulate counter_random
     \<lparr>mu = 0, kappa = 2 ^ 512, theta = 2 ^ 512, eta = 0, rho = 0, milstein = True\<rparr>
     1 0 2 1 2 True False None 0
   = Inr (PricesVol [[Fin 1], [Fin 1], [NaN]] [[Fin 0], [PInf], [NaN]], 4)"
  by (simp add: run_simps)

text \<open>
  Claim C1, amended. For every call of \<^verbatim>\<open>HestonProcess.simulate\<close> with \<open>m \<ge> 1\<close> that
  returns (a seed NumPy accepts, \<^verbatim>\<open>rho ** 2\<close> and \<^verbatim>\<open>eta ** 2\<close> in range), the variance grid
  has \<open>m + 1\<close> rows and \<open>n\<close> columns and no entry of it is negative: every entry is
  non-negative (possibly \<open>inf\<close>) or NaN, for any \<open>mu\<close>, \<open>kappa\<close>, \<open>theta\<close>, \<open>eta\<close>, \<open>rho\<close>,
  \<open>v0\<close>, \<open>T\<close> and \<open>milstein\<close>.
\<close>

theorem heston_variance_not_negative:
  assumes "1 \<le> m" and "seed_accepted rng seed" and "powers_in_range p"
  shows "\<exists>s v g'. HestonProcess_simulate rng p s0 v0 T n m True antithetic seed g
                   = Inr (PricesVol s v, g')
           \<and> shape v (m + 1) n \<and> list_all (list_all not_negative) v"
proof -
  obtain g0 where g0: "seed_guard rng seed g = Inr g0"
    using seed_guard_accepted[OF assms(2)] by blast
  have r: "rho p ^ 2 \<le> float_max" and e: "milstein p \<longrightarrow> eta p ^ 2 \<le> float_max"
    using assms(3) by (simp_all add: powers_in_range_def)
  obtain z1 z2 g2 where nz: "heston_noise rng p n m antithetic g0 = Inr ((z1, z2), g2)"
    using heston_noise_returns[OF r, where rng = rng and n = n and m = m and anti = antithetic and g = g0]
    by blast
  note z = heston_noise_shape[OF nz]
  show ?thesis
    using heston_simulate_returns[OF assms(1) g0 nz e, of s0 v0 T True]
      heston_loop_shape[OF z, of p "T / real m" s0 v0]
      heston_loop_not_negative[OF assms(1), of p "T / real m" z1 z2 "heston_init s0 v0 n m"]
    by simp
qed

theorem heston_variance_not_negative_witness:
  "1 \<le> (5::nat) \<and> seed_accepted counter_random (Some 7)
   \<and> powers_in_range
       \<lparr>mu = 3 / 100, kappa = 2, theta = 1 / 25, eta = 3 / 10, rho = - 7 / 10, milstein = True\<rparr>
   \<and> (\<exists>s v g'. HestonProcess_simulate counter_random
          \<lparr>mu = 3 / 100, kappa = 2, theta = 1 / 25, eta = 3 / 10, rho = - 7 / 10, milstein = True\<rparr>
          100 (1 / 25) 1 1 5 True False (Some 7) 0 = Inr (PricesVol s v, g')
        \<and> shape v (5 + 1) 1 \<and> list_all (list_all not_negative) v)"
proof -
  have m: "1 \<le> (5::nat)" by simp
  have a: "seed_accepted counter_random (Some 7)"
    by (simp add: seed_accepted_def counter_random_def)
  note p = powers_in_range_example
  show ?thesis by (intro conjI m a p heston_variance_not_negative[OF m a p])
qed

section \<open>HestonProcess: the first row\<close>

text \<open>
  Claim C4 says that row 0 of the returned variance matrix equals \<open>v0\<close> for any \<open>v0\<close>.
  The reflection of line 102 is applied to the whole array, row 0 included, so a
  negative \<open>v0\<close> comes back negated: with \<open>v0 = -1\<close> row 0 of the variance matrix is
  \<open>[1]\<close>.
\<close>

theorem heston_row0_counterexample:
  "HestonProcess_simulate counter_random
     \<lparr>mu = - 7 / 2, kappa = 2, theta = 1, eta = 1, rho = 0, milstein = False\<rparr>
     100 (- 1) 1 1 1 True False (Some 3) 0
   = Inr (PricesVol [[Fin 100], [Fin 100]] [[Fin 1], [NaN]], 5)
   \<and> [[Fin 1], [NaN]] ! 0 \<noteq> replicate 1 (Fin (- 1))"
  by (simp add: run_simps)

text \<open>
  Claim C4, amended. For every call of \<^verbatim>\<open>HestonProcess.simulate\<close> with \<open>m \<ge> 1\<close> that
  returns (a seed NumPy accepts, \<^verbatim>\<open>rho ** 2\<close> and \<^verbatim>\<open>eta ** 2\<close> in range) and any \<open>s0\<close> and
  \<open>v0\<close>, row 0 of the returned price matrix is \<open>s0\<close> in every column, and row 0 of the
  returned variance matrix is \<open>\<bar>v0\<bar>\<close> in every column: \<open>v0\<close> itself whenever \<open>v0 \<ge> 0\<close>.
\<close>

theorem heston_row0:
  assumes "1 \<le> m" and "seed_accepted rng seed" and "powers_in_range p"
  shows "(\<exists>s g'. HestonProcess_simulate rng p s0 v0 T n m False antithetic seed g
                   = Inr (Prices s, g')
            \<and> s ! 0 = replicate n (Fin s0))
       \<and> (\<exists>s v g'. HestonProcess_simulate rng p s0 v0 T n m True antithetic seed g
                   = Inr (PricesVol s v, g')
            \<and> s ! 0 = replicate n (Fin s0) \<and> v ! 0 = replicate n (Fin \<bar>v0\<bar>))"
proof -
  obtain g0 where g0: "seed_guard rng seed g = Inr g0"
    using seed_guard_accepted[OF assms(2)] by blast
  have r: "rho p ^ 2 \<le> float_max" and e: "milstein p \<longrightarrow> eta p ^ 2 \<le> float_max"
    using assms(3) by (simp_all add: powers_in_range_def)
  obtain z1 z2 g2 where nz: "heston_noise rng p n m antithetic g0 = Inr ((z1, z2), g2)"
    using heston_noise_returns[OF r, where rng = rng and n = n and m = m and anti = antithetic and g = g0]
    by blast
  note z = heston_noise_shape[OF nz]
  have m: "m \<noteq> 0" using assms(1) by simp
  note r0 = heston_loop_row0[OF z, of p "T / real m" s0 v0]
  have 1: "\<exists>s g'. HestonProcess_simulate rng p s0 v0 T n m False antithetic seed g
                   = Inr (Prices s, g') \<and> s ! 0 = replicate n (Fin s0)"
    using heston_simulate_returns[OF assms(1) g0 nz e, of s0 v0 T False] r0 by simp
  have 2: "\<exists>s v g'. HestonProcess_simulate rng p s0 v0 T n m True antithetic seed g
                   = Inr (PricesVol s v, g')
            \<and> s ! 0 = replicate n (Fin s0) \<and> v ! 0 = replicate n (Fin \<bar>v0\<bar>)"
    using heston_simulate_returns[OF assms(1) g0 nz e, of s0 v0 T True] r0 m by simp
  show ?thesis using 1 2 by blast
qed

theorem heston_row0_witness:
  "1 \<le> (5::nat) \<and> seed_accepted counter_random (Some 7)
   \<and> powers_in_range
       \<lparr>mu = 3 / 100, kappa = 2, theta = 1 / 25, eta = 3 / 10, rho = - 7 / 10, milstein = True\<rparr>
   \<and> (\<exists>s g'. HestonProcess_simulate counter_random
          \<lparr>mu = 3 / 100, kappa = 2, theta = 1 / 25, eta = 3 / 10, rho = - 7 / 10, milstein = True\<rparr>
          100 (1 / 25) 1 3 5 False False (Some 7) 0 = Inr (Prices s, g')
        \<and> s ! 0 = replicate 3 (Fin 100))
   \<and> (\<exists>s v g'. HestonProcess_simulate counter_random
          \<lparr>mu = 3 / 100, kappa = 2, theta = 1 / 25, eta = 3 / 10, rho = - 7 / 10, milstein = True\<rparr>
          100 (1 / 25) 1 3 5 True False (Some 7) 0 = Inr (PricesVol s v, g')
        \<and> s ! 0 = replicate 3 (Fin 100) \<and> v ! 0 = replicate 3 (Fin \<bar>1 / 25\<bar>))"
proof -
  have m: "1 \<le> (5::nat)" by simp
  have a: "seed_accepted counter_random (Some 7)"
    by (simp add: seed_accepted_def counter_random_def)
  note p = powers_in_range_example
  show ?thesis by (intro conjI m a p heston_row0[OF m a p, THEN conjunct1]
        heston_row0[OF m a p, THEN conjunct2])
qed

section \<open>The seed\<close>

lemma exp_le_float_max:
  assumes "x \<le> 600"
  shows "exp x \<le> float_max"
proof -
  have "exp x \<le> exp (real 600 * 1)" using assms by simp
  also have "\<dots> = exp 1 ^ 600" by (rule exp_of_nat_mult)
  also have "\<dots> \<le> 3 ^ 600" by (intro power_mono exp_le) simp
  also have "\<dots> \<le> float_max" by (simp add: float_max_def)
  finally show ?thesis .
qed

lemma seed_guard_nonzero: "k \<noteq> 0 \<Longrightarrow> seed_guard rng (Some k) g1 = seed_guard rng (Some k) g2"
  by (simp add: seed_guard_def)

lemma returned_Inr: "returned (Inr r) = Inr (fst r)"
  by (cases r) (simp add: returned_def)

text \<open>
  With a seed other than \<open>0\<close> the generator is reset before any draw, and what either
  simulator returns does not depend on the state the generator was in.
\<close>

lemma nonzero_seed_deterministic:
  assumes "k \<noteq> 0"
  shows "returned (GeometricBrownianMotion_simulate rng q s0 T n m w0 antithetic (Some k) g1)
         = returned (GeometricBrownianMotion_simulate rng q s0 T n m w0 antithetic (Some k) g2)
       \<and> returned (HestonProcess_simulate rng p s0 v0 T n m return_vol antithetic (Some k) g1)
         = returned (HestonProcess_simulate rng p s0 v0 T n m return_vol antithetic (Some k) g2)"
  using seed_guard_nonzero[OF assms, of rng g1 g2]
  by (simp add: GeometricBrownianMotion_simulate_def gbm_brownian_def HestonProcess_simulate_def)

text \<open>
  Claim C5. Two calls of a simulator with an identical seed argument and identical
  parameters return identical matrices. The code breaks this for the seed \<open>0\<close>, which the
  guard \<^verbatim>\<open>if seed:\<close> of lines 36 and 77 takes for no seed: the first call below, with
  \<^verbatim>\<open>seed=0\<close>, starts in generator state \<open>0\<close> and leaves state \<open>2\<close>; the second call, with
  the same arguments, starts there; the two matrices differ in row 1.
\<close>

theorem seed_zero_not_deterministic:
  "GeometricBrownianMotion_simulate counter_random
     \<lparr>GeometricBrownianMotion.mu = 1 / 2, sigma = 1\<rparr> 1 1 1 1 None False (Some 0) 0
   = Inr ([[Fin 1], [Fin (exp 1)]], 2)
   \<and> GeometricBrownianMotion_simulate counter_random
     \<lparr>GeometricBrownianMotion.mu = 1 / 2, sigma = 1\<rparr> 1 1 1 1 None False (Some 0) 2
   = Inr ([[Fin 1], [Fin (exp 5)]], 4)
   \<and> [[Fin 1], [Fin (exp 1)]] \<noteq> [[Fin 1], [Fin (exp 5)]]"
proof -
  have up: "exp (1::real) \<le> float_max" "exp (5::real) \<le> float_max"
    by (rule exp_le_float_max, simp)+
  have lo: "- float_max \<le> exp (1::real)" "- float_max \<le> exp (5::real)"
    using float_max_pos exp_gt_zero[of "1::real"] exp_gt_zero[of "5::real"] by linarith+
  show ?thesis using up lo by (simp add: run_simps)
qed

text \<open>
  Claim C10. With \<^verbatim>\<open>seed=0\<close> the guard does not reseed the generator, and either
  simulator then behaves exactly as the same call with no seed: same result, drawn from
  the state the generator was in, and same generator state left behind.
\<close>

theorem seed_zero_is_no_seed:
  "seed_guard rng (Some 0) g = Inr g
   \<and> GeometricBrownianMotion_simulate rng q s0 T n m w0 antithetic (Some 0) g
     = GeometricBrownianMotion_simulate rng q s0 T n m w0 antithetic None g
   \<and> HestonProcess_simulate rng p s0 v0 T n m return_vol antithetic (Some 0) g
     = HestonProcess_simulate rng p s0 v0 T n m return_vol antithetic None g"
  by (simp add: seed_guard_def GeometricBrownianMotion_simulate_def gbm_brownian_def
      HestonProcess_simulate_def)

section \<open>GeometricBrownianMotion: antithetic paths\<close>

lemma gbm_W_antithetic:
  "fst (gbm_W rng dt n m True g) = map (map fneg) (fst (gbm_W rng dt n m False g))"
proof -
  obtain z g1 where z: "randn rng (m + 1) n g = (z, g1)" by (cases "randn rng (m + 1) n g")
  let ?C = "np_cumsum (map (map (fmul (np_sqrt (Fin dt)))) z)"
  have "map (map fneg) ((map (map (fmul (Fin 1))) ?C)[0 := replicate n (Fin 0)])
        = (map (map (fmul (Fin (- 1)))) ?C)[0 := replicate n (Fin 0)]"
    by (simp add: map_update fneg_fmul_one comp_def del: np_sqrt.simps fmul.simps)
  then show ?thesis
    using z by (simp add: gbm_W_def signe_def Let_def del: np_sqrt.simps fmul.simps)
qed

text \<open>
  With the same seed other than \<open>0\<close>, the path \<open>W\<close> of the antithetic call is the
  negation, cell by cell, of the path of the plain call. (Cells that are NaN, as all
  cells below row 0 are for a negative \<open>T\<close>, are NaN in both.)
\<close>

lemma nonzero_seed_antithetic:
  assumes "1 \<le> m" and "k \<noteq> 0" and "seed_accepted rng (Some k)"
  shows "\<exists>W. returned (gbm_brownian rng T n m False (Some k) g1) = Inr W
            \<and> returned (gbm_brownian rng T n m True (Some k) g2) = Inr (map (map fneg) W)"
proof -
  obtain g0 where g0: "seed_guard rng (Some k) g1 = Inr g0"
    using seed_guard_accepted[OF assms(3)] by blast
  have g0': "seed_guard rng (Some k) g2 = Inr g0"
    using g0 seed_guard_nonzero[OF assms(2), of rng g1 g2] by simp
  show ?thesis
    using gbm_brownian_returns[OF assms(1) g0, of T n False]
      gbm_brownian_returns[OF assms(1) g0', of T n True]
      gbm_W_antithetic[of rng "T / real m" n m g0]
    by (simp add: returned_Inr)
qed

text \<open>
  Claim C6. For two calls with the same seed and identical parameters, one plain and one
  antithetic, the Brownian path of the antithetic call is the negation of the path of
  the plain call. The code breaks this for the seed \<open>0\<close>, which does not reseed: the
  plain call below starts in generator state \<open>0\<close>, draws \<open>0, 1\<close> and leaves state \<open>2\<close>;
  the antithetic call starts there and draws \<open>2, 3\<close>; its path \<open>[[0], [-5]]\<close> is not the
  negation of \<open>[[0], [1]]\<close>.
\<close>

theorem seed_zero_not_antithetic:
  "gbm_brownian counter_random 1 1 1 False (Some 0) 0 = Inr ([[Fin 0], [Fin 1]], 2)
   \<and> gbm_brownian counter_random 1 1 1 True (Some 0) 2 = Inr ([[Fin 0], [Fin (- 5)]], 4)
   \<and> [[Fin 0], [Fin (- 5)]] \<noteq> map (map fneg) [[Fin 0], [Fin 1]]"
  by (simp add: run_simps)

section \<open>HestonProcess: the noise\<close>

text \<open>
  Claim C7. In \<^verbatim>\<open>HestonProcess.simulate\<close> the two grids \<open>a\<close> and \<open>w\<close> are drawn one after
  the other, the correlation \<open>rho * a + sqrt(1 - rho\<^sup>2) * w\<close> is formed from the drawn
  values as they are, and both grids are then multiplied by the same sign, which is
  \<open>-1\<close> when antithetic and \<open>1\<close> otherwise: every cell of \<open>z1\<close> is the cell of \<open>a\<close> times
  that sign, and every cell of \<open>z2\<close> is the correlated cell times that sign.
\<close>

theorem heston_noise_correlate_then_sign:
  assumes "randn rng m n g = (a, g1)" and "randn rng m n g1 = (w, g2)"
    and "i < m" and "j < n" and "rho p ^ 2 \<le> float_max"
  shows "\<exists>z1 z2. heston_noise rng p n m antithetic g = Inr ((z1, z2), g2)
           \<and> z1 ! i ! j = fmul (a ! i ! j) (Fin (if antithetic then - 1 else 1))
           \<and> z2 ! i ! j =
               fmul (fadd (fmul (Fin (rho p)) (a ! i ! j))
                          (fmul (np_sqrt (fsub (Fin 1) (Fin (rho p ^ 2)))) (w ! i ! j)))
                    (Fin (if antithetic then - 1 else 1))"
proof -
  have sa: "shape a m n" using shape_randn[of rng m n g] assms(1) by simp
  have sw: "shape w m n" using shape_randn[of rng m n g1] assms(2) by simp
  have la: "length a = m" "length w = m" using sa sw by (simp_all add: shape_def)
  have lr: "length (a ! i) = n" "length (w ! i) = n"
    using shape_nth[OF sa assms(3)] shape_nth[OF sw assms(3)] by simp_all
  show ?thesis
    using assms la lr
    by (simp add: heston_noise_def py_pow2_def signe_def Let_def
        del: np_sqrt.simps fmul.simps fadd.simps)
qed

theorem heston_noise_correlate_then_sign_witness:
  "randn counter_random 1 2 0 = ([[Fin 0, Fin 1]], 2)
   \<and> randn counter_random 1 2 2 = ([[Fin 2, Fin 3]], 4)
   \<and> (0::nat) < 1 \<and> (1::nat) < 2
   \<and> rho \<lparr>mu = 3 / 100, kappa = 2, theta = 1 / 25, eta = 3 / 10, rho = 0, milstein = True\<rparr> ^ 2
       \<le> float_max
   \<and> (\<exists>z1 z2. heston_noise counter_random
          \<lparr>mu = 3 / 100, kappa = 2, theta = 1 / 25, eta = 3 / 10, rho = 0, milstein = True\<rparr>
          2 1 True 0 = Inr ((z1, z2), 4)
        \<and> z1 ! 0 ! 1 = fmul ([[Fin 0, Fin 1]] ! 0 ! 1) (Fin (if True then - 1 else 1))
        \<and> z2 ! 0 ! 1 =
            fmul (fadd (fmul (Fin (rho \<lparr>mu = 3 / 100, kappa = 2, theta = 1 / 25, eta = 3 / 10,
                                       rho = 0, milstein = True\<rparr>))
                             ([[Fin 0, Fin 1]] ! 0 ! 1))
                       (fmul (np_sqrt (fsub (Fin 1)
                                (Fin (rho \<lparr>mu = 3 / 100, kappa = 2, theta = 1 / 25,
                                eta = 3 / 10, rho = 0, milstein = True\<rparr> ^ 2))))
                             ([[Fin 2, Fin 3]] ! 0 ! 1)))
                 (Fin (if True then - 1 else 1)))"
proof -
  have a: "randn counter_random 1 2 0 = ([[Fin 0, Fin 1]], 2)"
    by (simp add: randn_def counter_random_def numeral_2_eq_2)
  have w: "randn counter_random 1 2 2 = ([[Fin 2, Fin 3]], 4)"
    by (simp add: randn_def counter_random_def numeral_2_eq_2)
  have i: "(0::nat) < 1" by simp
  have j: "(1::nat) < 2" by simp
  have r: "rho \<lparr>mu = 3 / 100, kappa = 2, theta = 1 / 25, eta = 3 / 10, rho = 0,
             milstein = True\<rparr> ^ 2 \<le> float_max"
    by (rule pow2_in_range) simp
  show ?thesis
    by (intro conjI a w i j r heston_noise_correlate_then_sign[OF a w i j r])
qed

text \<open>
  On the draws \<open>0, 1\<close> and \<open>2, 3\<close> with \<open>rho = 0\<close>: the plain grids, and the antithetic
  grids with every cell negated.
\<close>

lemma heston_noise_antithetic_example:
  "heston_noise counter_random
     \<lparr>mu = 3 / 100, kappa = 2, theta = 1 / 25, eta = 3 / 10, rho = 0, milstein = True\<rparr>
     2 1 False 0 = Inr (([[Fin 0, Fin 1]], [[Fin 2, Fin 3]]), 4)
   \<and> heston_noise counter_random
     \<lparr>mu = 3 / 100, kappa = 2, theta = 1 / 25, eta = 3 / 10, rho = 0, milstein = True\<rparr>
     2 1 True 0 = Inr (([[Fin 0, Fin (- 1)]], [[Fin (- 2), Fin (- 3)]]), 4)"
  by (simp add: run_simps)

section \<open>HestonProcess: the reflection\<close>

text \<open>
  Claim C8. In every pass through the loop body, after row \<open>i + 1\<close> of \<open>v\<close> has been
  assigned, each cell of the whole array (any row \<open>r\<close>, not only row \<open>i + 1\<close>) is replaced
  by its negation where it is negative and kept otherwise; no cell is set to zero, and
  NaN stays NaN.
\<close>

theorem heston_step_reflects_whole_array:
  assumes "r < length v"
    and "c < length (v[i + 1 := map2 (variance_next p dt) (v ! i) (z1 ! i)] ! r)"
  shows "snd (snd (heston_step p dt z1 z2 i (s, x, v))) ! r ! c =
           (case v[i + 1 := map2 (variance_next p dt) (v ! i) (z1 ! i)] ! r ! c of
              Fin a \<Rightarrow> Fin (if a < 0 then - a else a)
            | PInf \<Rightarrow> PInf
            | NInf \<Rightarrow> PInf
            | NaN \<Rightarrow> NaN)"
proof -
  let ?u = "v[i + 1 := map2 (variance_next p dt) (v ! i) (z1 ! i)]"
  have "snd (snd (heston_step p dt z1 z2 i (s, x, v))) ! r ! c = reflect (?u ! r ! c)"
    unfolding heston_step_v np_where_reflect_def using assms by simp
  then show ?thesis by (simp only: reflect_cases)
qed

theorem heston_step_reflects_whole_array_witness:
  "(0::nat) < length [[Fin (- 4)], [Fin 0], [Fin 0]]
   \<and> snd (snd (heston_step
        \<lparr>mu = 0, kappa = 2, theta = 1, eta = 1, rho = 0, milstein = True\<rparr> 1
        [[Fin 0], [Fin 0]] [[Fin 0], [Fin 0]] 0
        ([[Fin 100], [Fin 0], [Fin 0]], [[Fin 0], [Fin 0], [Fin 0]],
         [[Fin (- 4)], [Fin 0], [Fin 0]]))) ! 0 ! 0 = Fin 4"
proof -
  have r: "(0::nat) < length [[Fin (- 4)], [Fin 0], [Fin 0]]" by simp
  have c: "0 < length ([[Fin (- 4)], [Fin 0], [Fin 0]]
             [0 + 1 := map2 (variance_next
                \<lparr>mu = 0, kappa = 2, theta = 1, eta = 1, rho = 0, milstein = True\<rparr> 1)
                ([[Fin (- 4)], [Fin 0], [Fin 0]] ! 0) ([[Fin 0], [Fin 0]] ! 0)] ! 0)"
    by simp
  show ?thesis
    using r heston_step_reflects_whole_array[OF r c, of "[[Fin 0], [Fin 0]]" "[[Fin 100], [Fin 0], [Fin 0]]" "[[Fin 0], [Fin 0], [Fin 0]]"]
    by (simp del: heston_step.simps)
qed

section \<open>HestonProcess: the Milstein term\<close>

text \<open>
The noise does not depend on the flag.
\<close>

lemma heston_noise_milstein:
  "heston_noise rng (p\<lparr>milstein := b\<rparr>) n m antithetic g = heston_noise rng p n m antithetic g"
  by (simp add: heston_noise_def Let_def split: prod.splits sum.splits)

lemma heston_step_v_cell:
  assumes "i + 1 < length v" and "j < length (v ! i)" and "j < length (z1 ! i)"
  shows "snd (snd (heston_step p dt z1 z2 i (s, x, v))) ! (i + 1) ! j
           = reflect (variance_next p dt (v ! i ! j) (z1 ! i ! j))"
  unfolding heston_step_v np_where_reflect_def using assms by simp

text \<open>
The flag changes row \<open>i + 1\<close> only.
\<close>

lemma heston_step_v_other_rows:
  assumes "r \<noteq> i + 1" and "r < length v"
  shows "snd (snd (heston_step (p\<lparr>milstein := True\<rparr>) dt z1 z2 i (s, x, v))) ! r
         = snd (snd (heston_step (p\<lparr>milstein := False\<rparr>) dt z1 z2 i (s, x, v))) ! r"
  unfolding heston_step_v np_where_reflect_def using assms by simp

text \<open>
  Claim C9. For the same arrays and the same noise \<open>z1[i]\<close>, the value a pass with
  \<^verbatim>\<open>milstein=False\<close> assigns to a cell of \<open>v[i + 1]\<close> is
  \<open>v[i] + kappa * (theta - v[i]) * dt + eta * sqrt(v[i] * dt) * z1[i]\<close>, and the value a
  pass with \<^verbatim>\<open>milstein=True\<close> assigns is that same value plus the term
  \<open>eta\<^sup>2 / 4 * (z1[i]\<^sup>2 - 1) * dt\<close>; the cell the pass leaves in row \<open>i + 1\<close> is the
  reflection (line 102) of the value assigned.
\<close>

theorem milstein_toggle:
  assumes "i + 1 < length v" and "j < length (v ! i)" and "j < length (z1 ! i)"
  shows "snd (snd (heston_step (p\<lparr>milstein := False\<rparr>) dt z1 z2 i (s, x, v))) ! (i + 1) ! j
         = reflect
             (fadd
                (fadd (v ! i ! j)
                      (fmul (fmul (Fin (kappa p)) (fsub (Fin (theta p)) (v ! i ! j))) (Fin dt)))
                (fmul (fmul (Fin (eta p)) (np_sqrt (fmul (v ! i ! j) (Fin dt)))) (z1 ! i ! j)))
       \<and> snd (snd (heston_step (p\<lparr>milstein := True\<rparr>) dt z1 z2 i (s, x, v))) ! (i + 1) ! j
         = reflect
             (fadd
                (fadd
                   (fadd (v ! i ! j)
                         (fmul (fmul (Fin (kappa p)) (fsub (Fin (theta p)) (v ! i ! j))) (Fin dt)))
                   (fmul (fmul (Fin (eta p)) (np_sqrt (fmul (v ! i ! j) (Fin dt)))) (z1 ! i ! j)))
                (fmul (fmul (fdiv (Fin (eta p ^ 2)) (Fin 4))
                            (fsub (fmul (z1 ! i ! j) (z1 ! i ! j)) (Fin 1)))
                      (Fin dt)))"
  unfolding heston_step_v_cell[OF assms]
  by (simp add: variance_next_def milstein_term_def fsquare_def fadd_fadd_zero
      del: fadd.simps fmul.simps fdiv.simps np_sqrt.simps)

theorem milstein_toggle_witness:
  "0 + 1 < length [[Fin 0], [Fin 0]] \<and> 0 < length ([[Fin 0], [Fin 0]] ! 0)
   \<and> 0 < length ([[Fin 0]] ! 0)
   \<and> snd (snd (heston_step
        (\<lparr>mu = 0, kappa = 0, theta = 0, eta = 2, rho = 0, milstein = True\<rparr>\<lparr>milstein := False\<rparr>) 1
        [[Fin 0]] [[Fin 0]] 0 ([[Fin 1], [Fin 0]], [[Fin 0], [Fin 0]], [[Fin 0], [Fin 0]])))
       ! (0 + 1) ! 0 = Fin 0
   \<and> snd (snd (heston_step
        (\<lparr>mu = 0, kappa = 0, theta = 0, eta = 2, rho = 0, milstein = True\<rparr>\<lparr>milstein := True\<rparr>) 1
        [[Fin 0]] [[Fin 0]] 0 ([[Fin 1], [Fin 0]], [[Fin 0], [Fin 0]], [[Fin 0], [Fin 0]])))
       ! (0 + 1) ! 0 = Fin 1"
proof -
  have i: "0 + 1 < length [[Fin 0], [Fin 0]]" by simp
  have j: "0 < length ([[Fin 0], [Fin 0]] ! 0)" by simp
  have k: "0 < length ([[Fin 0]] ! 0)" by simp
  show ?thesis
    using i j k
      milstein_toggle[OF i j k,
        of "\<lparr>mu = 0, kappa = 0, theta = 0, eta = 2, rho = 0, milstein = True\<rparr>" 1
          "[[Fin 0]]" "[[Fin 1], [Fin 0]]" "[[Fin 0], [Fin 0]]"]
    by (simp add: reflect_def fsub_def ovf_def float_max_def del: heston_step.simps)
qed

lemma abs_le_mult:
  fixes x y :: real
  assumes "\<bar>x\<bar> \<le> X" and "\<bar>y\<bar> \<le> Y"
  shows "\<bar>x * y\<bar> \<le> X * Y"
proof -
  have "0 \<le> Y" using assms(2) by linarith
  then have "\<bar>x\<bar> * \<bar>y\<bar> \<le> X * Y" using assms by (intro mult_mono) simp_all
  then show ?thesis by (simp add: abs_mult)
qed

lemma abs_le_add:
  fixes x y :: real
  assumes "\<bar>x\<bar> \<le> X" and "\<bar>y\<bar> \<le> Y"
  shows "\<bar>x + y\<bar> \<le> X + Y"
  using assms by linarith

lemma ovf_bounded: "\<bar>x\<bar> \<le> B \<Longrightarrow> B \<le> float_max \<Longrightarrow> ovf x = Fin x"
  by (rule ovf_Fin) linarith

text \<open>
  In real numbers: where the cells are finite, \<open>v[i] * dt\<close> is not negative and no
  operand exceeds \<open>2\<^sup>1\<^sup>0\<^sup>0\<close> in magnitude (so that nothing overflows), the two passes
  leave the absolute values of the update without and with the term.
\<close>

lemma milstein_toggle_reals:
  assumes idx: "i + 1 < length v" "j < length (v ! i)" "j < length (z1 ! i)"
    and cells: "v ! i ! j = Fin a" "z1 ! i ! j = Fin z"
    and sq: "0 \<le> a * dt"
    and bnd: "\<bar>a\<bar> \<le> 2 ^ 100" "\<bar>z\<bar> \<le> 2 ^ 100" "\<bar>dt\<bar> \<le> 2 ^ 100"
      "\<bar>kappa p\<bar> \<le> 2 ^ 100" "\<bar>theta p\<bar> \<le> 2 ^ 100" "\<bar>eta p\<bar> \<le> 2 ^ 100"
  shows "snd (snd (heston_step (p\<lparr>milstein := False\<rparr>) dt z1 z2 i (s, x, v))) ! (i + 1) ! j
         = Fin \<bar>a + kappa p * (theta p - a) * dt + eta p * sqrt (a * dt) * z\<bar>
       \<and> snd (snd (heston_step (p\<lparr>milstein := True\<rparr>) dt z1 z2 i (s, x, v))) ! (i + 1) ! j
         = Fin \<bar>a + kappa p * (theta p - a) * dt + eta p * sqrt (a * dt) * z
                 + eta p ^ 2 / 4 * (z ^ 2 - 1) * dt\<bar>"
proof -
  let ?k = "kappa p" and ?t = "theta p" and ?e = "eta p"
  have b1: "\<bar>?t - a\<bar> \<le> 2 ^ 101" using bnd by simp
  have b2: "\<bar>?k * (?t - a)\<bar> \<le> 2 ^ 100 * 2 ^ 101" by (rule abs_le_mult[OF bnd(4) b1])
  have b3: "\<bar>?k * (?t - a) * dt\<bar> \<le> 2 ^ 100 * 2 ^ 101 * 2 ^ 100"
    by (rule abs_le_mult[OF b2 bnd(3)])
  have b4: "\<bar>a + ?k * (?t - a) * dt\<bar> \<le> 2 ^ 100 + 2 ^ 100 * 2 ^ 101 * 2 ^ 100"
    by (rule abs_le_add[OF bnd(1) b3])
  have b5: "\<bar>a * dt\<bar> \<le> 2 ^ 100 * 2 ^ 100" by (rule abs_le_mult[OF bnd(1,3)])
  have "sqrt (a * dt) \<le> sqrt ((2 ^ 100) ^ 2)"
    using b5 sq by (intro real_sqrt_le_mono) (simp add: power2_eq_square)
  then have b6: "\<bar>sqrt (a * dt)\<bar> \<le> 2 ^ 100" using sq by simp
  have b7: "\<bar>?e * sqrt (a * dt)\<bar> \<le> 2 ^ 100 * 2 ^ 100" by (rule abs_le_mult[OF bnd(6) b6])
  have b8: "\<bar>?e * sqrt (a * dt) * z\<bar> \<le> 2 ^ 100 * 2 ^ 100 * 2 ^ 100"
    by (rule abs_le_mult[OF b7 bnd(2)])
  have b9: "\<bar>a + ?k * (?t - a) * dt + ?e * sqrt (a * dt) * z\<bar>
              \<le> 2 ^ 100 + 2 ^ 100 * 2 ^ 101 * 2 ^ 100 + 2 ^ 100 * 2 ^ 100 * 2 ^ 100"
    by (rule abs_le_add[OF b4 b8])
  have c1: "\<bar>z * z\<bar> \<le> 2 ^ 100 * 2 ^ 100" by (rule abs_le_mult[OF bnd(2,2)])
  have c2: "\<bar>z * z - 1\<bar> \<le> 2 ^ 100 * 2 ^ 100 + 1" using c1 by linarith
  have "\<bar>?e * ?e\<bar> \<le> 2 ^ 100 * 2 ^ 100" by (rule abs_le_mult[OF bnd(6,6)])
  then have c3: "\<bar>?e ^ 2 / 4\<bar> \<le> 2 ^ 100 * 2 ^ 100" by (simp add: power2_eq_square)
  have c4: "\<bar>?e ^ 2 / 4 * (z * z - 1)\<bar> \<le> 2 ^ 100 * 2 ^ 100 * (2 ^ 100 * 2 ^ 100 + 1)"
    by (rule abs_le_mult[OF c3 c2])
  have c5: "\<bar>?e ^ 2 / 4 * (z * z - 1) * dt\<bar>
              \<le> 2 ^ 100 * 2 ^ 100 * (2 ^ 100 * 2 ^ 100 + 1) * 2 ^ 100"
    by (rule abs_le_mult[OF c4 bnd(3)])
  have c6: "\<bar>a + ?k * (?t - a) * dt + ?e * sqrt (a * dt) * z + ?e ^ 2 / 4 * (z * z - 1) * dt\<bar>
              \<le> (2 ^ 100 + 2 ^ 100 * 2 ^ 101 * 2 ^ 100 + 2 ^ 100 * 2 ^ 100 * 2 ^ 100)
                 + 2 ^ 100 * 2 ^ 100 * (2 ^ 100 * 2 ^ 100 + 1) * 2 ^ 100"
    by (rule abs_le_add[OF b9 c5])
  have fm: "(2::real) ^ 101 \<le> float_max" "(2::real) ^ 100 * 2 ^ 101 \<le> float_max"
    "(2::real) ^ 100 * 2 ^ 101 * 2 ^ 100 \<le> float_max"
    "(2::real) ^ 100 + 2 ^ 100 * 2 ^ 101 * 2 ^ 100 \<le> float_max"
    "(2::real) ^ 100 * 2 ^ 100 \<le> float_max"
    "(2::real) ^ 100 * 2 ^ 100 * 2 ^ 100 \<le> float_max"
    "(2::real) ^ 100 + 2 ^ 100 * 2 ^ 101 * 2 ^ 100 + 2 ^ 100 * 2 ^ 100 * 2 ^ 100 \<le> float_max"
    "(2::real) ^ 100 * 2 ^ 100 + 1 \<le> float_max"
    "(2::real) ^ 100 * 2 ^ 100 * (2 ^ 100 * 2 ^ 100 + 1) \<le> float_max"
    "(2::real) ^ 100 * 2 ^ 100 * (2 ^ 100 * 2 ^ 100 + 1) * 2 ^ 100 \<le> float_max"
    "((2::real) ^ 100 + 2 ^ 100 * 2 ^ 101 * 2 ^ 100 + 2 ^ 100 * 2 ^ 100 * 2 ^ 100)
       + 2 ^ 100 * 2 ^ 100 * (2 ^ 100 * 2 ^ 100 + 1) * 2 ^ 100 \<le> float_max"
    by (simp_all add: float_max_def)
  note o = ovf_bounded[OF b1 fm(1), simplified] ovf_bounded[OF b2 fm(2), simplified]
    ovf_bounded[OF b3 fm(3), simplified] ovf_bounded[OF b4 fm(4), simplified]
    ovf_bounded[OF b5 fm(5), simplified] ovf_bounded[OF b7 fm(5), simplified]
    ovf_bounded[OF b8 fm(6), simplified] ovf_bounded[OF b9 fm(7), simplified]
    ovf_bounded[OF c1 fm(5), simplified] ovf_bounded[OF c2 fm(8), simplified]
    ovf_bounded[OF c3 fm(5), simplified] ovf_bounded[OF c4 fm(9), simplified]
    ovf_bounded[OF c5 fm(10), simplified] ovf_bounded[OF c6 fm(11), simplified]
  have nsq: "\<not> a * dt < 0" using sq by simp
  have E: "fadd (fadd (Fin a) (fmul (fmul (Fin ?k) (fsub (Fin ?t) (Fin a))) (Fin dt)))
                (fmul (fmul (Fin ?e) (np_sqrt (fmul (Fin a) (Fin dt)))) (Fin z))
           = Fin (a + ?k * (?t - a) * dt + ?e * sqrt (a * dt) * z)"
    by (simp add: fsub_def o nsq)
  have M: "fmul (fmul (fdiv (Fin (?e ^ 2)) (Fin 4)) (fsub (fmul (Fin z) (Fin z)) (Fin 1))) (Fin dt)
           = Fin (?e ^ 2 / 4 * (z * z - 1) * dt)"
    by (simp add: fsub_def o)
  have S: "fadd (Fin (a + ?k * (?t - a) * dt + ?e * sqrt (a * dt) * z))
                (Fin (?e ^ 2 / 4 * (z * z - 1) * dt))
           = Fin (a + ?k * (?t - a) * dt + ?e * sqrt (a * dt) * z + ?e ^ 2 / 4 * (z * z - 1) * dt)"
    by (simp add: o)
  have "snd (snd (heston_step (p\<lparr>milstein := False\<rparr>) dt z1 z2 i (s, x, v))) ! (i + 1) ! j
         = Fin \<bar>a + ?k * (?t - a) * dt + ?e * sqrt (a * dt) * z\<bar>
       \<and> snd (snd (heston_step (p\<lparr>milstein := True\<rparr>) dt z1 z2 i (s, x, v))) ! (i + 1) ! j
         = Fin \<bar>a + ?k * (?t - a) * dt + ?e * sqrt (a * dt) * z
                 + ?e ^ 2 / 4 * (z * z - 1) * dt\<bar>"
    using milstein_toggle[OF idx, of p dt z2 s x] unfolding cells E M S reflect_Fin .
  then show ?thesis by (simp only: power2_eq_square)
qed

text \<open>
  The term is added before the reflection, so the rows two passes leave need not differ
  by the term: from \<open>v[0] = 0\<close> with \<open>z1[0] = 0\<close>, \<open>eta = 2\<close>, \<open>dt = 1\<close> the term is \<open>-1\<close>,
  the pass without it leaves \<open>v[1] = 0\<close> and the pass with it leaves \<open>v[1] = \<bar>-1\<bar> = 1\<close>.
\<close>

lemma milstein_toggle_example:
  "snd (snd (heston_step \<lparr>mu = 0, kappa = 0, theta = 0, eta = 2, rho = 0, milstein = False\<rparr> 1
        [[Fin 0]] [[Fin 0]] 0 ([[Fin 1], [Fin 0]], [[Fin 0], [Fin 0]], [[Fin 0], [Fin 0]])))
   = [[Fin 0], [Fin 0]]
   \<and> snd (snd (heston_step \<lparr>mu = 0, kappa = 0, theta = 0, eta = 2, rho = 0, milstein = True\<rparr> 1
        [[Fin 0]] [[Fin 0]] 0 ([[Fin 1], [Fin 0]], [[Fin 0], [Fin 0]], [[Fin 0], [Fin 0]])))
   = [[Fin 0], [Fin 1]]
   \<and> milstein_term \<lparr>mu = 0, kappa = 0, theta = 0, eta = 2, rho = 0, milstein = True\<rparr> 1 (Fin 0)
   = Fin (- 1)"
  by (simp add: run_simps)

end
